theory Spec2Isabelle
  imports Main
begin

section \<open>Git submodule dependency submission\<close>

text \<open>
  A shallow embedding of the helpers (\<^verbatim>\<open>processSubmoduleTag\<close>, \<^verbatim>\<open>processSubmodule\<close>,
  \<^verbatim>\<open>processSubmoduleUrls\<close>, \<^verbatim>\<open>processSubmoduleCache\<close>, \<^verbatim>\<open>parseSubmoduleManifest\<close>) and of
  \<^verbatim>\<open>main\<close> in \<^verbatim>\<open>index.ts\<close>. Strings are lists of characters; every \<^verbatim>\<open>throw\<close> of the
  source is a value \<open>Inl e\<close> of a sum type.
\<close>

subsection \<open>The string methods the source calls\<close>

text \<open>
  \<^verbatim>\<open>s.split(c)\<close> for a separator of one character, which is what every call site passes
  (\<^verbatim>\<open>'\n'\<close>, \<^verbatim>\<open>'"'\<close>, \<^verbatim>\<open>'='\<close>, \<^verbatim>\<open>'/'\<close>, \<^verbatim>\<open>'.'\<close>). The result is never empty:
  \<^verbatim>\<open>''.split('/')\<close> is \<^verbatim>\<open>['']\<close>. So the split of the rest always has a first piece, to
  which a character other than the separator is added (lemma \<open>str_split_not_Nil\<close>; the
  case of an empty split is there for totality only).
\<close>

fun str_split :: "char \<Rightarrow> string \<Rightarrow> string list" where
  "str_split c [] = [[]]"
| "str_split c (x # xs) =
     (if x = c then [] # str_split c xs
      else case str_split c xs of
             [] \<Rightarrow> [[x]]
           | y # ys \<Rightarrow> (x # y) # ys)"

text \<open>\<^verbatim>\<open>s.includes(sub)\<close>: \<open>sub\<close> occurs in \<open>s\<close> as a contiguous substring.\<close>

fun starts_with :: "string \<Rightarrow> string \<Rightarrow> bool" where
  "starts_with s [] = True"
| "starts_with [] (y # ys) = False"
| "starts_with (x # xs) (y # ys) = (x = y \<and> starts_with xs ys)"

fun str_includes :: "string \<Rightarrow> string \<Rightarrow> bool" where
  "str_includes [] sub = starts_with [] sub"
| "str_includes (x # xs) sub = (starts_with (x # xs) sub \<or> str_includes xs sub)"

text \<open>
  \<^verbatim>\<open>s.trim()\<close> removes white space at both ends. A character stands for a code unit below
  256; the white space of ECMAScript in that range is TAB, LF, VT, FF, CR, SPACE and the
  no-break space.
\<close>

definition is_space :: "char \<Rightarrow> bool" where
  "is_space c = (c \<in> set [CHR 0x09, CHR 0x0A, CHR 0x0B, CHR 0x0C, CHR 0x0D, CHR 0x20, CHR 0xA0])"

definition str_trim :: "string \<Rightarrow> string" where
  "str_trim s = rev (dropWhile is_space (rev (dropWhile is_space s)))"

text \<open>\<^verbatim>\<open>xs[i]\<close>: reading an array out of range gives \<^verbatim>\<open>undefined\<close>, here \<open>None\<close>.\<close>

definition at :: "'a list \<Rightarrow> nat \<Rightarrow> 'a option" where
  "at xs i = (if i < length xs then Some (xs ! i) else None)"

subsection \<open>Data\<close>

record Submodule =
  name :: string
  path :: string
  url :: string
  tag :: string

text \<open>
  The conditions under which the source throws. \<open>TypeError\<close> is the runtime's error for a
  method call on \<^verbatim>\<open>undefined\<close>; \<open>ReadFailed\<close> is \<^verbatim>\<open>fs.readFileSync\<close> throwing;
  \<open>ExecFailed\<close> is the promise of \<^verbatim>\<open>exec.getExecOutput\<close> rejecting;
  \<open>InvalidCoordinate\<close> is the constructor of \<^verbatim>\<open>PackageURL\<close> throwing. An error stands for
  the condition, not for the text of its message.
\<close>

datatype error =
    ManifestNotFound
  | ReadFailed
  | ExecFailed
  | VersionResolutionFailed
  | IncompleteSubmodule
  | UnsupportedHost
  | TypeError
  | InvalidCoordinate
  | AssertionFailed

record PackageURL =
  purl_type :: string
  purl_namespace :: string
  purl_name :: string
  purl_version :: string

text \<open>
  Modelled from the spec: the coordinate (type, namespace, name, version) and its
  constructor, \<^verbatim>\<open>new PackageURL(type, namespace, name, version, null, null)\<close> of the package
  \<^verbatim>\<open>packageurl-js\<close>, which is not part of the sources. Of the spec's invariant (every field
  non-empty, else construction fails) the package enforces the type and the name: it throws
  when either is empty or \<^verbatim>\<open>undefined\<close>. The namespace is optional to it: an empty or
  absent namespace is accepted, and both are kept here as the empty string. The version is
  never empty at the one call site.
\<close>

definition new_PackageURL ::
  "string option \<Rightarrow> string option \<Rightarrow> string \<Rightarrow> string \<Rightarrow> error + PackageURL" where
  "new_PackageURL ty ns nm ver =
     (case ty of
        None \<Rightarrow> Inl InvalidCoordinate
      | Some t \<Rightarrow>
          if t = [] \<or> nm = [] then Inl InvalidCoordinate
          else Inr \<lparr>purl_type = t,
                    purl_namespace = (case ns of None \<Rightarrow> [] | Some n \<Rightarrow> n),
                    purl_name = nm, purl_version = ver\<rparr>)"

subsection \<open>processSubmodule\<close>

text \<open>
  The source reads segments 2, 3 and 4 of the url split on \<^verbatim>\<open>'/'\<close>. Segments 2 and 3 are
  only read, so they may be \<^verbatim>\<open>undefined\<close>; segment 4 is the receiver of \<^verbatim>\<open>.split('.')\<close>,
  which throws a \<open>TypeError\<close> on \<^verbatim>\<open>undefined\<close>. That line runs before the test of the
  hosting domain.
\<close>

definition processSubmodule :: "Submodule \<Rightarrow> error + PackageURL" where
  "processSubmodule submodule =
     (if name submodule = [] \<or> path submodule = [] \<or>
         url submodule = [] \<or> tag submodule = []
      then Inl IncompleteSubmodule
      else
        let ty = at (str_split CHR ''/'' (url submodule)) 2;
            namespace = at (str_split CHR ''/'' (url submodule)) 3
        in case at (str_split CHR ''/'' (url submodule)) 4 of
             None \<Rightarrow> Inl TypeError
           | Some seg \<Rightarrow>
               let nm = hd (str_split CHR ''.'' seg)
               in if ty \<noteq> Some ''github.com'' then Inl UnsupportedHost
                  else new_PackageURL (map_option (\<lambda>t. hd (str_split CHR ''.'' t)) ty)
                         namespace nm (tag submodule))"

subsection \<open>What the source takes from its platform\<close>

record ExecOutput =
  exitCode :: int
  stdout :: string
  stderr :: string

record ExecOptions =
  cwd :: string
  ignoreReturnCode :: bool

text \<open>
  The functions of Node and of the GitHub toolkit that the source calls are parameters of the
  model: \<^verbatim>\<open>path.normalize\<close>, \<^verbatim>\<open>path.basename\<close>, \<^verbatim>\<open>fs.existsSync\<close>, \<^verbatim>\<open>fs.readFileSync\<close>
  (\<open>None\<close> when it throws) and \<^verbatim>\<open>core.getInput\<close>. So is the process that
  \<^verbatim>\<open>exec.getExecOutput\<close> runs: \<open>exec_process\<close> takes the command, the arguments and the
  working directory and gives the exit status, the standard output and the standard error
  of the process, or \<open>None\<close> when the process cannot be started.
\<close>

record env =
  path_normalize :: "string \<Rightarrow> string"
  path_basename :: "string \<Rightarrow> string"
  fs_existsSync :: "string \<Rightarrow> bool"
  fs_readFileSync :: "string \<Rightarrow> string option"
  exec_process :: "string \<Rightarrow> string list \<Rightarrow> string \<Rightarrow> ExecOutput option"
  core_getInput :: "string \<Rightarrow> string"

text \<open>
  Modelled from the spec: \<^verbatim>\<open>exec.getExecOutput\<close> of the package \<^verbatim>\<open>@actions/exec\<close>, which is
  not part of the sources. The spec gives the capability (run a command in a working
  directory, receive exit status, output and error text). The promise of the package is
  fulfilled with these three only when the process has exited with status 0, or when the
  caller passes the option \<^verbatim>\<open>ignoreReturnCode: true\<close>; when the process cannot be started,
  or exits with another status and the option is not set, the promise rejects.
\<close>

definition getExecOutput ::
  "env \<Rightarrow> string \<Rightarrow> string list \<Rightarrow> ExecOptions \<Rightarrow> error + ExecOutput" where
  "getExecOutput env commandLine args options =
     (case exec_process env commandLine args (cwd options) of
        None \<Rightarrow> Inl ExecFailed
      | Some out \<Rightarrow>
          if exitCode out \<noteq> 0 \<and> \<not> ignoreReturnCode options then Inl ExecFailed
          else Inr out)"

text \<open>The accesses to the file system, in the order in which they are made.\<close>

datatype fs_event = ExistsSync string | ReadFileSync string

subsection \<open>processSubmoduleTag\<close>

text \<open>
  Both calls pass the options \<^verbatim>\<open>{ cwd: submodulePath }\<close>, so \<^verbatim>\<open>ignoreReturnCode\<close> is not
  set. An \<^verbatim>\<open>await\<close> on a promise that rejects throws, which ends the function. The
  variable \<^verbatim>\<open>tag\<close> of the source is \<open>tagOutput\<close> here.
\<close>

definition processSubmoduleTag :: "env \<Rightarrow> string \<Rightarrow> error + string" where
  "processSubmoduleTag env modulePath =
     (let submodulePath = path_normalize env modulePath
      in case getExecOutput env ''git'' [''describe'', ''--tags'']
                \<lparr>cwd = submodulePath, ignoreReturnCode = False\<rparr> of
           Inl e \<Rightarrow> Inl e
         | Inr tagOutput \<Rightarrow>
             if exitCode tagOutput \<noteq> 0
             then (case getExecOutput env ''git'' [''rev-parse'', ''--short'', ''HEAD'']
                          \<lparr>cwd = submodulePath, ignoreReturnCode = False\<rparr> of
                     Inl e \<Rightarrow> Inl e
                   | Inr tagOutput \<Rightarrow>
                       if exitCode tagOutput \<noteq> 0 then Inl VersionResolutionFailed
                       else Inr (stdout tagOutput))
             else Inr (stdout tagOutput))"

subsection \<open>processSubmoduleUrls and processSubmoduleCache\<close>

text \<open>
  \<^verbatim>\<open>forEach\<close> with a callback that may throw: the first record on which
  \<^verbatim>\<open>processSubmodule\<close> throws ends the loop with that error.
\<close>

fun pushPurls :: "Submodule list \<Rightarrow> PackageURL list \<Rightarrow> error + PackageURL list" where
  "pushPurls [] purls = Inr purls"
| "pushPurls (submodule # submodules) purls =
     (case processSubmodule submodule of
        Inl e \<Rightarrow> Inl e
      | Inr purl \<Rightarrow> pushPurls submodules (purls @ [purl]))"

definition processSubmoduleUrls :: "Submodule list \<Rightarrow> error + PackageURL list" where
  "processSubmoduleUrls submodules = pushPurls submodules []"

text \<open>
  Modelled from the spec: \<^verbatim>\<open>PackageCache\<close> and \<^verbatim>\<open>Package\<close>, classes of the package
  \<^verbatim>\<open>@github/dependency-submission-toolkit\<close> that is not part of the sources. The spec's
  index is a mapping keyed by the coordinate, compared structurally; an insertion under a
  key that is present overwrites; a lookup gives the entry or an absent result. The source
  passes the coordinate alone to \<^verbatim>\<open>cache.package\<close>, so the entry holds the coordinate, and
  \<^verbatim>\<open>dep.name()\<close> is the coordinate's name.
\<close>

record Package =
  packageURL :: PackageURL

type_synonym PackageCache = "PackageURL \<rightharpoonup> Package"

definition new_PackageCache :: PackageCache where
  "new_PackageCache = Map.empty"

definition cache_package :: "PackageCache \<Rightarrow> PackageURL \<Rightarrow> PackageCache" where
  "cache_package cache purl = cache(purl \<mapsto> \<lparr>packageURL = purl\<rparr>)"

definition lookupPackage :: "PackageCache \<Rightarrow> PackageURL \<Rightarrow> Package option" where
  "lookupPackage cache purl = cache purl"

definition package_name :: "Package \<Rightarrow> string" where
  "package_name dep = purl_name (packageURL dep)"

fun cachePackages :: "Submodule list \<Rightarrow> PackageCache \<Rightarrow> error + PackageCache" where
  "cachePackages [] cache = Inr cache"
| "cachePackages (submodule # submodules) cache =
     (case processSubmodule submodule of
        Inl e \<Rightarrow> Inl e
      | Inr purl \<Rightarrow> cachePackages submodules (cache_package cache purl))"

definition processSubmoduleCache :: "Submodule list \<Rightarrow> error + PackageCache" where
  "processSubmoduleCache submodules = cachePackages submodules new_PackageCache"

subsection \<open>parseSubmoduleManifest\<close>

definition emptySubmodule :: Submodule where
  "emptySubmodule = \<lparr>name = [], path = [], url = [], tag = []\<rparr>"

text \<open>
  \<^verbatim>\<open>line.split(c)[1]\<close>. Each of the three places that read index 1 is guarded by a test
  \<^verbatim>\<open>line.includes(...)\<close> whose argument contains the separator, so the index exists there
  (lemma \<open>part1_guarded\<close> below) and the value given here to the absent case is never used.
\<close>

definition part1 :: "string list \<Rightarrow> string" where
  "part1 parts = (case at parts 1 of None \<Rightarrow> [] | Some p \<Rightarrow> p)"

text \<open>The \<^verbatim>\<open>if\<close> / \<^verbatim>\<open>else if\<close> chain of the loop body.\<close>

definition scanLine :: "string \<Rightarrow> Submodule \<Rightarrow> Submodule" where
  \<open>scanLine line submodule =
     (if name submodule = [] \<and> str_includes line ''submodule "''
      then submodule\<lparr>name := part1 (str_split CHR ''"'' line)\<rparr>
      else if path submodule = [] \<and> str_includes line ''path =''
      then submodule\<lparr>path := str_trim (part1 (str_split CHR ''='' line))\<rparr>
      else if url submodule = [] \<and> str_includes line ''url =''
      then submodule\<lparr>url := str_trim (part1 (str_split CHR ''='' line))\<rparr>
      else submodule)\<close>

text \<open>
  The loop over the lines. Its state is the record being filled and the records pushed so
  far; a record is pushed, and a fresh one started, as soon as name, path and url are all
  non-empty.
\<close>

fun scanLines :: "string list \<Rightarrow> Submodule \<Rightarrow> Submodule list \<Rightarrow> Submodule \<times> Submodule list" where
  "scanLines [] submodule submodules = (submodule, submodules)"
| "scanLines (line # lines) submodule submodules =
     (let submodule' = scanLine line submodule
      in if name submodule' \<noteq> [] \<and> path submodule' \<noteq> [] \<and> url submodule' \<noteq> []
         then scanLines lines emptySubmodule (submodules @ [submodule'])
         else scanLines lines submodule' submodules)"

definition manifestRecords :: "string \<Rightarrow> Submodule list" where
  "manifestRecords manifestFile =
     snd (scanLines (str_split CHR 0x0A manifestFile) emptySubmodule [])"

text \<open>
  \<^verbatim>\<open>Promise.all\<close> over the promises of the resolutions. The \<open>i\<close>-th promise settles to
  \<open>outcomes ! i\<close>; \<open>order\<close> lists the indices in the order in which the promises settle.
  A fulfilled promise stores its value in the slot of its own index; the first promise that
  rejects rejects the whole; the whole is fulfilled once every slot is filled. \<open>None\<close> is a
  promise that never settles, because an input never does. An index of \<open>order\<close> that
  names no promise is passed over.
\<close>

fun settle :: "(error + 'a) list \<Rightarrow> nat list \<Rightarrow> 'a option list \<Rightarrow> error + 'a option list" where
  "settle outcomes [] slots = Inr slots"
| "settle outcomes (i # order) slots =
     (case at outcomes i of
        None \<Rightarrow> settle outcomes order slots
      | Some (Inl e) \<Rightarrow> Inl e
      | Some (Inr v) \<Rightarrow> settle outcomes order (slots[i := Some v]))"

definition Promise_all :: "nat list \<Rightarrow> (error + 'a) list \<Rightarrow> (error + 'a list) option" where
  "Promise_all order outcomes =
     (case settle outcomes order (replicate (length outcomes) None) of
        Inl e \<Rightarrow> Some (Inl e)
      | Inr slots \<Rightarrow> (case those slots of None \<Rightarrow> None | Some vs \<Rightarrow> Some (Inr vs)))"

text \<open>
  \<^verbatim>\<open>tags.forEach((tag, index) => { submodules[index].tag = tag; })\<close>. An index beyond the
  array would read \<^verbatim>\<open>undefined\<close> and throw on the assignment.
\<close>

fun writeTags :: "string list \<Rightarrow> nat \<Rightarrow> Submodule list \<Rightarrow> error + Submodule list" where
  "writeTags [] index submodules = Inr submodules"
| "writeTags (t # tags) index submodules =
     (if index < length submodules
      then writeTags tags (Suc index) (submodules[index := (submodules ! index)\<lparr>tag := t\<rparr>])
      else Inl TypeError)"

text \<open>
  The result is paired with the accesses made to the file system. \<^verbatim>\<open>||\<close> does not
  evaluate \<^verbatim>\<open>fs.existsSync\<close> when the base name is already wrong.
\<close>

definition parseSubmoduleManifest ::
  "env \<Rightarrow> nat list \<Rightarrow> string \<Rightarrow> (error + Submodule list) option \<times> fs_event list" where
  "parseSubmoduleManifest env order manifest =
     (let manifestPath = path_normalize env manifest
      in if path_basename env manifestPath \<noteq> ''.gitmodules''
         then (Some (Inl ManifestNotFound), [])
         else if \<not> fs_existsSync env manifestPath
         then (Some (Inl ManifestNotFound), [ExistsSync manifestPath])
         else case fs_readFileSync env manifestPath of
                None \<Rightarrow>
                  (Some (Inl ReadFailed), [ExistsSync manifestPath, ReadFileSync manifestPath])
              | Some manifestFile \<Rightarrow>
                  (let submodules = manifestRecords manifestFile
                   in (case Promise_all order
                              (map (\<lambda>submodule. processSubmoduleTag env (path submodule))
                                 submodules) of
                         None \<Rightarrow> None
                       | Some (Inl e) \<Rightarrow> Some (Inl e)
                       | Some (Inr tags) \<Rightarrow> Some (writeTags tags 0 submodules),
                       [ExistsSync manifestPath, ReadFileSync manifestPath])))"

subsection \<open>main\<close>

datatype DependencyScope = runtime | development

text \<open>
  Modelled from the spec: the dependency listing (\<^verbatim>\<open>Manifest\<close> of the toolkit, not part of
  the sources) associates a scope with each coordinate; it is kept as the sequence of the
  entries added by \<^verbatim>\<open>addDirectDependency\<close>.
\<close>

record Dependency =
  dep_package :: Package
  dep_scope :: DependencyScope

definition addDirectDependency ::
  "Dependency list \<Rightarrow> Package \<Rightarrow> DependencyScope \<Rightarrow> Dependency list" where
  "addDirectDependency manifest dep scope =
     manifest @ [\<lparr>dep_package = dep, dep_scope = scope\<rparr>]"

text \<open>The body of \<^verbatim>\<open>purls.forEach\<close> in \<^verbatim>\<open>main\<close>.\<close>

fun addDependencies ::
  "PackageCache \<Rightarrow> string \<Rightarrow> PackageURL list \<Rightarrow> Dependency list \<Rightarrow> error + Dependency list" where
  "addDependencies modulesCache developmentDeps [] manifest = Inr manifest"
| "addDependencies modulesCache developmentDeps (purl # purls) manifest =
     (case lookupPackage modulesCache purl of
        None \<Rightarrow> Inl AssertionFailed
      | Some dep \<Rightarrow>
          (let scope = (if str_includes developmentDeps (package_name dep)
                        then development else runtime)
           in addDependencies modulesCache developmentDeps purls
                (addDirectDependency manifest dep scope)))"

text \<open>
  \<^verbatim>\<open>main\<close>, up to the listing it hands to the snapshot. \<open>None\<close>: the \<^verbatim>\<open>await\<close> never
  returns.
\<close>

definition main :: "env \<Rightarrow> nat list \<Rightarrow> (error + Dependency list) option" where
  "main env order =
     (let manifestPath = core_getInput env ''manifest''
      in case fst (parseSubmoduleManifest env order manifestPath) of
           None \<Rightarrow> None
         | Some (Inl e) \<Rightarrow> Some (Inl e)
         | Some (Inr submoduleList) \<Rightarrow>
             (case processSubmoduleUrls submoduleList of
                Inl e \<Rightarrow> Some (Inl e)
              | Inr purls \<Rightarrow>
                  (case processSubmoduleCache submoduleList of
                     Inl e \<Rightarrow> Some (Inl e)
                   | Inr modulesCache \<Rightarrow>
                       (let developmentDeps = core_getInput env ''development-deps''
                        in Some (addDependencies modulesCache developmentDeps purls [])))))"

subsection \<open>Manifests\<close>

text \<open>
  A section of a manifest, as the spec describes a complete one: a quoted section name, a
  \<^verbatim>\<open>path =\<close> line and a \<^verbatim>\<open>url =\<close> line. To write down sample manifests, a section is
  rendered the way git writes it: the header
  \<^verbatim>\<open>[submodule "name"]\<close>, then the two assignments, each indented by a TAB and each line
  ended by LF. The values are taken as written after \<^verbatim>\<open>"= "\<close>, so they may carry white
  space at their ends.
\<close>

record manifest_section =
  sec_name :: string
  sec_path :: string
  sec_url :: string

definition header_line :: "string \<Rightarrow> string" where
  \<open>header_line n = ''[submodule "'' @ n @ ''"]''\<close>

definition path_line :: "string \<Rightarrow> string" where
  "path_line p = CHR 0x09 # ''path = '' @ p"

definition url_line :: "string \<Rightarrow> string" where
  "url_line u = CHR 0x09 # ''url = '' @ u"

definition render_section :: "manifest_section \<Rightarrow> string" where
  "render_section s =
     header_line (sec_name s) @ [CHR 0x0A] @
     path_line (sec_path s) @ [CHR 0x0A] @
     url_line (sec_url s) @ [CHR 0x0A]"

definition render_manifest :: "manifest_section list \<Rightarrow> string" where
  "render_manifest secs = concat (map render_section secs)"

text \<open>
  A section in a general layout, for the statement about well-formed manifests. The header
  is any line that holds \<^verbatim>\<open>submodule "name"\<close>; the two assignments are lines that hold
  \<^verbatim>\<open>path =\<close> and \<^verbatim>\<open>url =\<close>, in either order, each after some indentation; the value of
  an assignment is the text after \<^verbatim>\<open>=\<close>. Other lines may follow the header, stand
  between the two assignments and follow the second one.
\<close>

record manifest_entry =
  entry_name :: string
  entry_path :: string
  entry_url :: string
  header_pre :: string
  header_post :: string
  path_pre :: string
  url_pre :: string
  url_first :: bool
  lines_after_header :: "string list"
  lines_between :: "string list"
  lines_after :: "string list"

definition entry_header :: "manifest_entry \<Rightarrow> string" where
  \<open>entry_header e = header_pre e @ ''submodule "'' @ entry_name e @ ''"'' @ header_post e\<close>

definition entry_path_line :: "manifest_entry \<Rightarrow> string" where
  "entry_path_line e = path_pre e @ ''path ='' @ entry_path e"

definition entry_url_line :: "manifest_entry \<Rightarrow> string" where
  "entry_url_line e = url_pre e @ ''url ='' @ entry_url e"

definition entry_lines :: "manifest_entry \<Rightarrow> string list" where
  "entry_lines e =
     entry_header e # lines_after_header e @
     [if url_first e then entry_url_line e else entry_path_line e] @ lines_between e @
     [if url_first e then entry_path_line e else entry_url_line e] @ lines_after e"

text \<open>
  A line that holds no assignment, and a line that holds neither an assignment nor the
  start of a header.
\<close>

definition no_assignment :: "string \<Rightarrow> bool" where
  "no_assignment l = (\<not> (str_includes l ''path ='' \<or> str_includes l ''url =''))"

definition no_marker :: "string \<Rightarrow> bool" where
  \<open>no_marker l = (\<not> (str_includes l ''submodule "'' \<or> str_includes l ''path ='' \<or>
                      str_includes l ''url =''))\<close>

text \<open>
  Well-formed: the name is non-empty and holds no quote, and no quote stands before it; the
  values hold no \<^verbatim>\<open>'='\<close> and are not blank, and no \<^verbatim>\<open>'='\<close> stands in the indentation;
  the lines after the header and between the assignments hold no assignment; the lines
  after the second assignment hold no assignment and no start of a header.
\<close>

definition well_formed_entry :: "manifest_entry \<Rightarrow> bool" where
  \<open>well_formed_entry e =
     (entry_name e \<noteq> [] \<and> CHR ''"'' \<notin> set (entry_name e) \<and> CHR ''"'' \<notin> set (header_pre e) \<and>
      CHR ''='' \<notin> set (path_pre e) \<and> CHR ''='' \<notin> set (entry_path e) \<and>
      str_trim (entry_path e) \<noteq> [] \<and>
      CHR ''='' \<notin> set (url_pre e) \<and> CHR ''='' \<notin> set (entry_url e) \<and>
      str_trim (entry_url e) \<noteq> [] \<and>
      list_all no_assignment (lines_after_header e) \<and>
      list_all no_assignment (lines_between e) \<and>
      list_all no_marker (lines_after e))\<close>

subsection \<open>A sample environment\<close>

text \<open>
  An environment to run the model on: paths are already normal, the base name is the last
  non-empty segment of the path, the only file is \<^verbatim>\<open>.gitmodules\<close>. The output of git ends with a
  line feed, as git prints it. In \<^verbatim>\<open>libs/dep-a\<close> the closest tag is \<^verbatim>\<open>v1.2.3\<close>; in
  \<^verbatim>\<open>libs/untagged\<close> no tag is reachable and \<^verbatim>\<open>git describe\<close> exits with status 128; in
  any other directory \<^verbatim>\<open>git describe\<close> prints \<^verbatim>\<open>v0.9-2-g1a2b3c4\<close>. The short hash is
  \<^verbatim>\<open>1a2b3c4\<close> everywhere.
\<close>

definition sample_git :: "string \<Rightarrow> string list \<Rightarrow> string \<Rightarrow> ExecOutput option" where
  "sample_git command args dir =
     (if args = [''describe'', ''--tags'']
      then (if dir = ''libs/dep-a''
            then Some \<lparr>exitCode = 0, stdout = ''v1.2.3\<newline>'', stderr = []\<rparr>
            else if dir = ''libs/untagged''
            then Some \<lparr>exitCode = 128, stdout = [],
                       stderr = ''fatal: No names found, cannot describe anything.\<newline>''\<rparr>
            else Some \<lparr>exitCode = 0, stdout = ''v0.9-2-g1a2b3c4\<newline>'', stderr = []\<rparr>)
      else if args = [''rev-parse'', ''--short'', ''HEAD'']
      then Some \<lparr>exitCode = 0, stdout = ''1a2b3c4\<newline>'', stderr = []\<rparr>
      else Some \<lparr>exitCode = 1, stdout = [], stderr = []\<rparr>)"

definition sample_env :: "string \<Rightarrow> string \<Rightarrow> string \<Rightarrow> env" where
  "sample_env manifestPath manifestFile developmentDeps =
     \<lparr>path_normalize = (\<lambda>p. p),
      path_basename = (\<lambda>p. last ([] # filter (\<lambda>seg. seg \<noteq> []) (str_split CHR ''/'' p))),
      fs_existsSync = (\<lambda>p. p = ''.gitmodules''),
      fs_readFileSync = (\<lambda>p. if p = ''.gitmodules'' then Some manifestFile else None),
      exec_process = sample_git,
      core_getInput = (\<lambda>n. if n = ''manifest'' then manifestPath
                           else if n = ''development-deps'' then developmentDeps else [])\<rparr>"

text \<open>
  Three manifests: one with the sections \<^verbatim>\<open>dep-a\<close> and \<^verbatim>\<open>dep\<close> (the path of the second
  is followed by two spaces), one whose second section lies in \<^verbatim>\<open>libs/untagged\<close>, one
  with the sections \<^verbatim>\<open>dep-a\<close> and \<^verbatim>\<open>zlib\<close>.
\<close>

definition sample_manifest :: string where
  "sample_manifest = render_manifest
     [\<lparr>sec_name = ''dep-a'', sec_path = ''libs/dep-a'',
       sec_url = ''https://github.com/org/dep-a.git''\<rparr>,
      \<lparr>sec_name = ''dep'', sec_path = ''libs/dep  '',
       sec_url = ''https://github.com/org/dep.git''\<rparr>]"

definition untagged_manifest :: string where
  "untagged_manifest = render_manifest
     [\<lparr>sec_name = ''dep-a'', sec_path = ''libs/dep-a'',
       sec_url = ''https://github.com/org/dep-a.git''\<rparr>,
      \<lparr>sec_name = ''untagged'', sec_path = ''libs/untagged'',
       sec_url = ''https://github.com/org/untagged.git''\<rparr>]"

definition other_manifest :: string where
  "other_manifest = render_manifest
     [\<lparr>sec_name = ''dep-a'', sec_path = ''libs/dep-a'',
       sec_url = ''https://github.com/org/dep-a.git''\<rparr>,
      \<lparr>sec_name = ''zlib'', sec_path = ''libs/zlib'',
       sec_url = ''https://github.com/madler/zlib.git''\<rparr>]"



text \<open>
  A manifest whose url holds a query, and a manifest with a comment that holds
  \<^verbatim>\<open>path =\<close> before the assignment of the path.
\<close>

definition query_manifest :: string where
  "query_manifest =
     header_line ''dep'' @ [CHR 0x0A] @ path_line ''libs/dep'' @ [CHR 0x0A] @
     url_line ''https://github.com/org/dep.git?ref=abc'' @ [CHR 0x0A]"

definition comment_manifest :: string where
  "comment_manifest =
     header_line ''dep'' @ [CHR 0x0A] @
     CHR 0x09 # ''# path = old/place'' @ [CHR 0x0A] @
     path_line ''libs/dep'' @ [CHR 0x0A] @
     url_line ''https://github.com/org/dep.git'' @ [CHR 0x0A]"

text \<open>
  A manifest in a freer layout: a comment first; in the first section the url before the
  path, a \<^verbatim>\<open>branch\<close> line between them, white space after the path and an empty line
  after the section; the second section indented with spaces.
\<close>

definition layout_entries :: "manifest_entry list" where
  "layout_entries =
     [\<lparr>entry_name = ''dep-a'', entry_path = '' libs/dep-a  '',
       entry_url = '' https://github.com/org/dep-a.git'',
       header_pre = ''['', header_post = '']'',
       path_pre = [CHR 0x09], url_pre = [CHR 0x09], url_first = True,
       lines_after_header = [], lines_between = [CHR 0x09 # ''branch = main''],
       lines_after = [[]]\<rparr>,
      \<lparr>entry_name = ''zlib'', entry_path = '' libs/zlib'',
       entry_url = '' https://github.com/madler/zlib.git'',
       header_pre = ''['', header_post = '']'',
       path_pre = ''    '', url_pre = ''    '', url_first = False,
       lines_after_header = [], lines_between = [], lines_after = [[]]\<rparr>]"

definition layout_manifest :: string where
  \<open>layout_manifest =
     ''# submodules of this repository'' @ [CHR 0x0A] @
     ''[submodule "dep-a"]'' @ [CHR 0x0A] @
     CHR 0x09 # ''url = https://github.com/org/dep-a.git'' @ [CHR 0x0A] @
     CHR 0x09 # ''branch = main'' @ [CHR 0x0A] @
     CHR 0x09 # ''path = libs/dep-a  '' @ [CHR 0x0A] @
     [CHR 0x0A] @
     ''[submodule "zlib"]'' @ [CHR 0x0A] @
     ''    path = libs/zlib'' @ [CHR 0x0A] @
     ''    url = https://github.com/madler/zlib.git'' @ [CHR 0x0A]\<close>

section \<open>Properties\<close>

subsection \<open>Facts about the string methods\<close>

lemma str_split_not_Nil [simp]: "str_split c s \<noteq> []"
  by (induction s) (auto split: list.splits)

lemma hd_str_split: "hd (str_split c s) = takeWhile (\<lambda>x. x \<noteq> c) s"
  by (induction s) (auto split: list.splits)

lemma at_simps [simp]:
  "at [] i = None"
  "at (x # xs) 0 = Some x"
  "at (x # xs) (Suc n) = at xs n"
  by (simp_all add: at_def)

lemma at_None_iff: "at xs i = None \<longleftrightarrow> length xs \<le> i"
  by (auto simp: at_def)

lemma starts_with_iff: "starts_with s sub \<longleftrightarrow> (\<exists>post. s = sub @ post)"
  by (induction s sub rule: starts_with.induct) auto

text \<open>\<open>str_includes\<close> is the substring test.\<close>

lemma str_includes_iff: "str_includes s sub \<longleftrightarrow> (\<exists>pre post. s = pre @ sub @ post)"
proof (induction s)
  case Nil
  show ?case by (simp add: starts_with_iff)
next
  case (Cons x xs)
  have "(\<exists>pre post. x # xs = pre @ sub @ post)
        \<longleftrightarrow> (\<exists>post. x # xs = sub @ post) \<or> (\<exists>pre post. xs = pre @ sub @ post)"
  proof
    assume "\<exists>pre post. x # xs = pre @ sub @ post"
    then obtain pre post where eq: "x # xs = pre @ sub @ post" by blast
    show "(\<exists>post. x # xs = sub @ post) \<or> (\<exists>pre post. xs = pre @ sub @ post)"
    proof (cases pre)
      case Nil
      with eq show ?thesis by auto
    next
      case (Cons p pre')
      with eq have "xs = pre' @ sub @ post" by simp
      then show ?thesis by blast
    qed
  next
    assume "(\<exists>post. x # xs = sub @ post) \<or> (\<exists>pre post. xs = pre @ sub @ post)"
    then show "\<exists>pre post. x # xs = pre @ sub @ post"
    proof
      assume "\<exists>post. x # xs = sub @ post"
      then obtain post where "x # xs = [] @ sub @ post" by auto
      then show ?thesis by blast
    next
      assume "\<exists>pre post. xs = pre @ sub @ post"
      then obtain pre post where "x # xs = (x # pre) @ sub @ post" by auto
      then show ?thesis by blast
    qed
  qed
  then show ?case by (simp add: starts_with_iff Cons.IH)
qed

lemma str_includes_middle: "str_includes (pre @ sub @ post) sub"
  by (auto simp: str_includes_iff)

lemma unique_sep:
  "xs @ c # ys = xs' @ c # ys' \<Longrightarrow> c \<notin> set xs' \<Longrightarrow> c \<notin> set ys' \<Longrightarrow> xs = xs'"
proof (induction xs' arbitrary: xs)
  case Nil
  then show ?case by (cases xs) auto
next
  case (Cons x xs')
  then show ?case by (cases xs) auto
qed

subsection \<open>Coordinate derivation\<close>

text \<open>
  C9. A complete record (all four fields non-empty) whose url splits on \<^verbatim>\<open>'/'\<close> into fewer
  than five segments makes \<^verbatim>\<open>processSubmodule\<close> fail with the runtime's error for a method
  call on \<^verbatim>\<open>undefined\<close>: it returns no coordinate and raises neither the incomplete-record
  nor the unsupported-host condition, whatever the hosting domain is.
\<close>

theorem processSubmodule_short_url:
  assumes "name s \<noteq> []" and "path s \<noteq> []" and "url s \<noteq> []" and "tag s \<noteq> []"
    and "length (str_split CHR ''/'' (url s)) < 5"
  shows "processSubmodule s = Inl TypeError
       \<and> processSubmodule s \<noteq> Inl IncompleteSubmodule
       \<and> processSubmodule s \<noteq> Inl UnsupportedHost
       \<and> (\<forall>p. processSubmodule s \<noteq> Inr p)"
proof -
  from assms(5) have "at (str_split CHR ''/'' (url s)) 4 = None"
    by (simp add: at_None_iff)
  with assms(1-4) have "processSubmodule s = Inl TypeError"
    by (simp add: processSubmodule_def Let_def)
  then show ?thesis by simp
qed

theorem processSubmodule_short_url_witness:
  "length (str_split CHR ''/'' ''git@github.com:org/dep-a.git'') < 5
   \<and> processSubmodule \<lparr>name = ''dep-a'', path = ''libs/dep-a'',
        url = ''git@github.com:org/dep-a.git'', tag = ''v1.2.3''\<rparr> = Inl TypeError"
proof -
  have len: "length (str_split CHR ''/'' ''git@github.com:org/dep-a.git'') < 5"
    by simp
  show ?thesis
    using len processSubmodule_short_url
      [of "\<lparr>name = ''dep-a'', path = ''libs/dep-a'',
            url = ''git@github.com:org/dep-a.git'', tag = ''v1.2.3''\<rparr>"]
    by simp
qed

text \<open>
  With at least five segments the derivation goes through: segment 2 is the hosting domain,
  segment 3 the namespace, and the name is the part of segment 4 before its first
  \<^verbatim>\<open>'.'\<close>.
\<close>

lemma processSubmodule_five_segments:
  assumes "name s \<noteq> []" and "path s \<noteq> []" and "url s \<noteq> []" and "tag s \<noteq> []"
    and "str_split CHR ''/'' (url s) = a # b # host # ns # repo # rest"
  shows "processSubmodule s =
     (if host \<noteq> ''github.com'' then Inl UnsupportedHost
      else if takeWhile (\<lambda>x. x \<noteq> CHR ''.'') repo = [] then Inl InvalidCoordinate
      else Inr \<lparr>purl_type = ''github'', purl_namespace = ns,
                purl_name = takeWhile (\<lambda>x. x \<noteq> CHR ''.'') repo,
                purl_version = tag s\<rparr>)"
proof -
  have dom: "hd (str_split CHR ''.'' ''github.com'') = ''github''"
    by simp
  have segs: "at (str_split CHR ''/'' (url s)) 2 = Some host"
    "at (str_split CHR ''/'' (url s)) 3 = Some ns"
    "at (str_split CHR ''/'' (url s)) 4 = Some repo"
    by (simp_all add: assms(5) at_def)
  show ?thesis
    using assms(1-4) dom
    by (simp add: processSubmodule_def segs Let_def hd_str_split new_PackageURL_def)
qed

lemma processSubmodule_example:
  "processSubmodule \<lparr>name = ''dep-a'', path = ''libs/dep-a'',
        url = ''https://github.com/org/dep-a.git'', tag = ''v1.2.3''\<rparr>
   = Inr \<lparr>purl_type = ''github'', purl_namespace = ''org'', purl_name = ''dep-a'',
           purl_version = ''v1.2.3''\<rparr>"
  by (simp add: processSubmodule_def Let_def at_def new_PackageURL_def)

text \<open>
  C5. The source does not do what the claim says on two kinds of complete records. The url
  \<^verbatim>\<open>https://gitlab.com/org\<close> has the hosting domain \<^verbatim>\<open>gitlab.com\<close> at segment 2, so the
  claim has it fail with the unsupported-host condition; it has no segment 4, and the source
  throws a \<open>TypeError\<close> on the line that computes the name, before it tests the host. The
  url \<^verbatim>\<open>https://github.com/org/my.lib.js.git\<close> has the repository segment
  \<^verbatim>\<open>my.lib.js.git\<close>, whose name without the trailing extension is \<^verbatim>\<open>my.lib.js\<close>; the
  source keeps only what stands before the first \<^verbatim>\<open>'.'\<close>, the name \<^verbatim>\<open>my\<close>.
\<close>

theorem processSubmodule_failing_input:
  "at (str_split CHR ''/'' ''https://gitlab.com/org'') 2 = Some ''gitlab.com''
   \<and> processSubmodule \<lparr>name = ''dep-a'', path = ''libs/dep-a'',
        url = ''https://gitlab.com/org'', tag = ''v1.2.3''\<rparr> = Inl TypeError
   \<and> at (str_split CHR ''/'' ''https://github.com/org/my.lib.js.git'') 4 = Some ''my.lib.js.git''
   \<and> processSubmodule \<lparr>name = ''my-lib'', path = ''libs/my-lib'',
        url = ''https://github.com/org/my.lib.js.git'', tag = ''v1.2.3''\<rparr>
     = Inr \<lparr>purl_type = ''github'', purl_namespace = ''org'', purl_name = ''my'',
             purl_version = ''v1.2.3''\<rparr>"
  by (simp add: processSubmodule_def Let_def at_def new_PackageURL_def)

subsection \<open>Resolution of the versions\<close>

text \<open>
  A promise fulfilled by \<open>getExecOutput\<close> without the option carries the exit status 0, so
  the tests of \<^verbatim>\<open>tag.exitCode\<close> in the source never succeed.
\<close>

lemma getExecOutput_exit:
  "getExecOutput env c args \<lparr>cwd = d, ignoreReturnCode = False\<rparr> = Inr out \<Longrightarrow> exitCode out = 0"
  by (auto simp: getExecOutput_def split: option.splits if_splits)

lemma getExecOutput_error:
  "getExecOutput env c args options = Inl e \<Longrightarrow> e = ExecFailed"
  by (auto simp: getExecOutput_def split: option.splits if_splits)

lemma processSubmoduleTag_eq:
  "processSubmoduleTag env modulePath =
     (case exec_process env ''git'' [''describe'', ''--tags''] (path_normalize env modulePath) of
        None \<Rightarrow> Inl ExecFailed
      | Some out \<Rightarrow> if exitCode out \<noteq> 0 then Inl ExecFailed else Inr (stdout out))"
  by (simp add: processSubmoduleTag_def getExecOutput_def Let_def split: option.splits)

lemma processSubmoduleTag_error:
  "processSubmoduleTag env p = Inl e \<Longrightarrow> e = ExecFailed"
  by (auto simp: processSubmoduleTag_eq split: option.splits if_splits)

lemma settle_rejects:
  assumes "i \<in> set order" and "i < length outcomes" and "outcomes ! i = Inl e"
    and "\<And>j e'. j < length outcomes \<Longrightarrow> outcomes ! j = Inl e' \<Longrightarrow> e' = e"
  shows "settle outcomes order slots = Inl e"
  using assms(1)
proof (induction order arbitrary: slots)
  case Nil
  then show ?case by simp
next
  case (Cons j order)
  show ?case
  proof (cases "at outcomes j")
    case None
    with Cons assms(2) show ?thesis by (auto simp: at_def split: if_splits)
  next
    case (Some r)
    then have j: "j < length outcomes" "outcomes ! j = r"
      by (auto simp: at_def split: if_splits)
    show ?thesis
    proof (cases r)
      case (Inl e')
      with j assms(4) have "e' = e" by blast
      with Some Inl show ?thesis by simp
    next
      case (Inr v)
      with j assms(3) have "j \<noteq> i" by auto
      with Cons Some Inr show ?thesis by simp
    qed
  qed
qed

lemma settle_fulfils:
  assumes "length outcomes = length vs" and "\<And>i. i < length vs \<Longrightarrow> outcomes ! i = Inr (vs ! i)"
    and "length slots = length vs"
  shows "settle outcomes order slots =
           Inr (map (\<lambda>i. if i \<in> set order then Some (vs ! i) else slots ! i) [0..<length vs])"
  using assms(3)
proof (induction order arbitrary: slots)
  case Nil
  then show ?case using map_nth [of slots] by simp
next
  case (Cons j order)
  show ?case
  proof (cases "j < length vs")
    case True
    then have "at outcomes j = Some (Inr (vs ! j))"
      using assms(1,2) by (simp add: at_def)
    moreover have "length (slots[j := Some (vs ! j)]) = length vs"
      using Cons.prems by simp
    ultimately show ?thesis
      using Cons.IH [of "slots[j := Some (vs ! j)]"] True Cons.prems
      by (auto simp: nth_list_update)
  next
    case False
    then have "at outcomes j = None"
      using assms(1) by (simp add: at_def)
    then show ?thesis
      using Cons.IH [OF Cons.prems] False by auto
  qed
qed

lemma those_map_Some: "those (map Some vs) = Some vs"
  by (induction vs) auto

lemma Promise_all_fulfils:
  assumes "outcomes = map Inr vs" and "\<And>i. i < length vs \<Longrightarrow> i \<in> set order"
  shows "Promise_all order outcomes = Some (Inr vs)"
proof -
  have "settle outcomes order (replicate (length outcomes) None) =
          Inr (map (\<lambda>i. if i \<in> set order then Some (vs ! i)
                         else replicate (length outcomes) None ! i) [0..<length vs])"
    by (rule settle_fulfils) (simp_all add: assms(1))
  also have "map (\<lambda>i. if i \<in> set order then Some (vs ! i)
                         else replicate (length outcomes) None ! i) [0..<length vs]
             = map Some vs"
    by (rule nth_equalityI) (simp_all add: assms(2))
  finally show ?thesis
    by (simp add: Promise_all_def those_map_Some)
qed

lemma Promise_all_rejects:
  assumes "i \<in> set order" and "i < length outcomes" and "outcomes ! i = Inl e"
    and "\<And>j e'. j < length outcomes \<Longrightarrow> outcomes ! j = Inl e' \<Longrightarrow> e' = e"
  shows "Promise_all order outcomes = Some (Inl e)"
  using settle_rejects [OF assms, where slots = "replicate (length outcomes) None"]
  by (simp add: Promise_all_def)

lemma writeTags_nth:
  "k + length tags \<le> length subs \<Longrightarrow>
   writeTags tags k subs =
     Inr (map (\<lambda>i. if k \<le> i \<and> i < k + length tags
                    then (subs ! i)\<lparr>tag := tags ! (i - k)\<rparr> else subs ! i)
            [0..<length subs])"
proof (induction tags arbitrary: k subs)
  case Nil
  then show ?case by (auto intro!: nth_equalityI)
next
  case (Cons t tags)
  then have k: "k < length subs" by simp
  have "writeTags (t # tags) k subs
        = writeTags tags (Suc k) (subs[k := (subs ! k)\<lparr>tag := t\<rparr>])"
    using k by simp
  also have "\<dots> = Inr (map (\<lambda>i. if Suc k \<le> i \<and> i < Suc k + length tags
                    then ((subs[k := (subs ! k)\<lparr>tag := t\<rparr>]) ! i)\<lparr>tag := tags ! (i - Suc k)\<rparr>
                    else (subs[k := (subs ! k)\<lparr>tag := t\<rparr>]) ! i)
            [0..<length subs])"
    using Cons.IH [of "Suc k" "subs[k := (subs ! k)\<lparr>tag := t\<rparr>]"] Cons.prems by simp
  also have "\<dots> = Inr (map (\<lambda>i. if k \<le> i \<and> i < k + length (t # tags)
                    then (subs ! i)\<lparr>tag := (t # tags) ! (i - k)\<rparr> else subs ! i)
            [0..<length subs])"
  proof -
    have eq: "\<And>x. \<not> Suc k \<le> x \<Longrightarrow> k \<le> x \<Longrightarrow> x = k"
      by arith
    show ?thesis
      by (auto simp: nth_list_update nth_Cons' Suc_diff_Suc intro!: nth_equalityI dest: eq)
  qed
  finally show ?case .
qed

lemma writeTags_all:
  assumes "length tags = length subs"
  shows "writeTags tags 0 subs = Inr (map2 (\<lambda>s t. s\<lparr>tag := t\<rparr>) subs tags)"
proof -
  have "writeTags tags 0 subs =
     Inr (map (\<lambda>i. if 0 \<le> i \<and> i < 0 + length tags
                    then (subs ! i)\<lparr>tag := tags ! (i - 0)\<rparr> else subs ! i)
            [0..<length subs])"
    by (rule writeTags_nth) (simp add: assms)
  also have "map (\<lambda>i. if 0 \<le> i \<and> i < 0 + length tags
                    then (subs ! i)\<lparr>tag := tags ! (i - 0)\<rparr> else subs ! i)
            [0..<length subs] = map2 (\<lambda>s t. s\<lparr>tag := t\<rparr>) subs tags"
    by (rule nth_equalityI) (simp_all add: assms)
  finally show ?thesis .
qed

lemmas sample_defs =
  render_manifest_def render_section_def header_line_def path_line_def url_line_def
  manifestRecords_def scanLine_def part1_def at_def
  str_trim_def is_space_def emptySubmodule_def Let_def parseSubmoduleManifest_def
  sample_env_def sample_git_def Promise_all_def processSubmoduleTag_def getExecOutput_def

lemma settle_error: "settle outcomes order slots = Inl e \<Longrightarrow> Inl e \<in> set outcomes"
proof (induction order arbitrary: slots)
  case Nil
  then show ?case by simp
next
  case (Cons j order)
  show ?case
  proof (cases "at outcomes j")
    case None
    with Cons show ?thesis by simp
  next
    case (Some r)
    then have mem: "r \<in> set outcomes"
      by (auto simp: at_def split: if_splits)
    show ?thesis
    proof (cases r)
      case (Inl e')
      with Some Cons.prems mem show ?thesis by simp
    next
      case (Inr v)
      with Some Cons show ?thesis by simp
    qed
  qed
qed

lemma Promise_all_error: "Promise_all order outcomes = Some (Inl e) \<Longrightarrow> Inl e \<in> set outcomes"
  by (auto simp: Promise_all_def split: sum.splits option.splits dest: settle_error)

lemma writeTags_error: "writeTags tags k subs = Inl e \<Longrightarrow> e = TypeError"
  by (induction tags arbitrary: k subs) (auto split: if_splits)

lemma parse_checked:
  assumes "path_basename env (path_normalize env m) = ''.gitmodules''"
    and "fs_existsSync env (path_normalize env m)"
    and "fs_readFileSync env (path_normalize env m) = Some manifestFile"
  shows "fst (parseSubmoduleManifest env order m) =
           (case Promise_all order
                   (map (\<lambda>submodule. processSubmoduleTag env (path submodule))
                      (manifestRecords manifestFile)) of
              None \<Rightarrow> None
            | Some (Inl e) \<Rightarrow> Some (Inl e)
            | Some (Inr tags) \<Rightarrow> Some (writeTags tags 0 (manifestRecords manifestFile)))"
  using assms by (simp add: parseSubmoduleManifest_def Let_def)

lemma parse_resolved:
  assumes "path_basename env (path_normalize env m) = ''.gitmodules''"
    and "fs_existsSync env (path_normalize env m)"
    and "fs_readFileSync env (path_normalize env m) = Some manifestFile"
    and "map (\<lambda>submodule. processSubmoduleTag env (path submodule))
           (manifestRecords manifestFile) = map Inr tags"
    and "\<And>i. i < length (manifestRecords manifestFile) \<Longrightarrow> i \<in> set order"
  shows "fst (parseSubmoduleManifest env order m) =
           Some (Inr (map2 (\<lambda>s t. s\<lparr>tag := t\<rparr>) (manifestRecords manifestFile) tags))"
proof -
  have len: "length tags = length (manifestRecords manifestFile)"
    using arg_cong [OF assms(4), of length] by simp
  have "Promise_all order
          (map (\<lambda>submodule. processSubmoduleTag env (path submodule))
             (manifestRecords manifestFile)) = Some (Inr tags)"
    by (rule Promise_all_fulfils [OF assms(4)]) (simp add: len assms(5))
  then show ?thesis
    by (simp add: parse_checked [OF assms(1-3)] writeTags_all [OF len])
qed

lemma parse_rejected:
  assumes "path_basename env (path_normalize env m) = ''.gitmodules''"
    and "fs_existsSync env (path_normalize env m)"
    and "fs_readFileSync env (path_normalize env m) = Some manifestFile"
    and "i < length (manifestRecords manifestFile)"
    and "processSubmoduleTag env (path (manifestRecords manifestFile ! i))
           = Inl ExecFailed"
    and "i \<in> set order"
  shows "fst (parseSubmoduleManifest env order m) = Some (Inl ExecFailed)"
proof -
  let ?outcomes = "map (\<lambda>submodule. processSubmoduleTag env (path submodule))
                     (manifestRecords manifestFile)"
  have "Promise_all order ?outcomes = Some (Inl ExecFailed)"
  proof (rule Promise_all_rejects [OF assms(6)])
    show "i < length ?outcomes" using assms(4) by simp
    show "?outcomes ! i = Inl ExecFailed" using assms(4,5) by simp
    show "e' = ExecFailed"
      if "j < length ?outcomes" and "?outcomes ! j = Inl e'" for j e'
      using that processSubmoduleTag_error by simp
  qed
  then show ?thesis
    by (simp add: parse_checked [OF assms(1-3)])
qed

lemma parse_error_cases:
  assumes "fst (parseSubmoduleManifest env order m) = Some (Inl e)"
  shows "e = ManifestNotFound \<and>
           (path_basename env (path_normalize env m) \<noteq> ''.gitmodules'' \<or>
            \<not> fs_existsSync env (path_normalize env m))
         \<or> e \<in> {ReadFailed, ExecFailed, TypeError} \<and>
           path_basename env (path_normalize env m) = ''.gitmodules'' \<and>
           fs_existsSync env (path_normalize env m)"
proof (cases "path_basename env (path_normalize env m) = ''.gitmodules'' \<and>
              fs_existsSync env (path_normalize env m)")
  case False
  with assms show ?thesis
    by (auto simp: parseSubmoduleManifest_def Let_def split: if_splits)
next
  case True
  show ?thesis
  proof (cases "fs_readFileSync env (path_normalize env m)")
    case None
    with True assms show ?thesis
      by (simp add: parseSubmoduleManifest_def Let_def)
  next
    case (Some manifestFile)
    have "e = ExecFailed \<or> e = TypeError"
      using assms True Some
      by (auto simp: parse_checked split: option.splits sum.splits
               dest!: Promise_all_error writeTags_error
               dest: processSubmoduleTag_error [OF sym])
    with True show ?thesis by simp
  qed
qed

text \<open>
  C4. The source does not reach its fallback. When the tag command exits with a status other
  than 0, the awaited promise rejects (the source does not pass \<^verbatim>\<open>ignoreReturnCode\<close>), so
  \<^verbatim>\<open>processSubmoduleTag\<close> throws there: it never runs the hash command and never returns
  the short hash, whatever that command would print. When the tag command exits with status
  0 the function returns its standard output as it is, which is the tag followed by the line
  feed that git prints. The failure is not recovered: when the resolution of a record of the
  manifest throws (and that resolution completes), \<^verbatim>\<open>main\<close> ends with that error.
\<close>

theorem processSubmoduleTag_no_fallback:
  "(exec_process env ''git'' [''describe'', ''--tags''] (path_normalize env modulePath) = Some out \<and>
      exitCode out \<noteq> 0 \<longrightarrow>
      processSubmoduleTag env modulePath = Inl ExecFailed)
   \<and> (exec_process env ''git'' [''describe'', ''--tags''] (path_normalize env modulePath) = Some out \<and>
      exitCode out = 0 \<longrightarrow>
      processSubmoduleTag env modulePath = Inr (stdout out))
   \<and> (path_basename env (path_normalize env (core_getInput env ''manifest'')) = ''.gitmodules'' \<and>
      fs_existsSync env (path_normalize env (core_getInput env ''manifest'')) \<and>
      fs_readFileSync env (path_normalize env (core_getInput env ''manifest'')) = Some manifestFile \<and>
      i < length (manifestRecords manifestFile) \<and>
      processSubmoduleTag env (path (manifestRecords manifestFile ! i)) = Inl ExecFailed \<and>
      i \<in> set order \<longrightarrow>
      main env order = Some (Inl ExecFailed))"
proof (intro conjI impI)
  assume a: "path_basename env (path_normalize env (core_getInput env ''manifest'')) = ''.gitmodules'' \<and>
      fs_existsSync env (path_normalize env (core_getInput env ''manifest'')) \<and>
      fs_readFileSync env (path_normalize env (core_getInput env ''manifest'')) = Some manifestFile \<and>
      i < length (manifestRecords manifestFile) \<and>
      processSubmoduleTag env (path (manifestRecords manifestFile ! i)) = Inl ExecFailed \<and>
      i \<in> set order"
  then have "fst (parseSubmoduleManifest env order (core_getInput env ''manifest''))
             = Some (Inl ExecFailed)"
    by (intro parse_rejected [where i = i and manifestFile = manifestFile]) simp_all
  then show "main env order = Some (Inl ExecFailed)"
    by (simp add: main_def)
qed (simp_all add: processSubmoduleTag_eq)

lemma sample_records:
  "manifestRecords sample_manifest =
     [\<lparr>name = ''dep-a'', path = ''libs/dep-a'', url = ''https://github.com/org/dep-a.git'', tag = []\<rparr>,
      \<lparr>name = ''dep'', path = ''libs/dep'', url = ''https://github.com/org/dep.git'', tag = []\<rparr>]"
  by (simp add: sample_manifest_def sample_defs)

lemma untagged_records:
  "manifestRecords untagged_manifest =
     [\<lparr>name = ''dep-a'', path = ''libs/dep-a'', url = ''https://github.com/org/dep-a.git'', tag = []\<rparr>,
      \<lparr>name = ''untagged'', path = ''libs/untagged'', url = ''https://github.com/org/untagged.git'', tag = []\<rparr>]"
  by (simp add: untagged_manifest_def sample_defs)

lemma sample_tags:
  "processSubmoduleTag (sample_env mp mf dd) ''libs/dep-a'' = Inr ''v1.2.3\<newline>''"
  "processSubmoduleTag (sample_env mp mf dd) ''libs/dep'' = Inr ''v0.9-2-g1a2b3c4\<newline>''"
  "processSubmoduleTag (sample_env mp mf dd) ''libs/zlib'' = Inr ''v0.9-2-g1a2b3c4\<newline>''"
  "processSubmoduleTag (sample_env mp mf dd) ''old/place'' = Inr ''v0.9-2-g1a2b3c4\<newline>''"
  "processSubmoduleTag (sample_env mp mf dd) ''libs/untagged'' = Inl ExecFailed"
  by (simp_all add: processSubmoduleTag_eq sample_env_def sample_git_def)

lemma sample_check:
  "path_basename (sample_env mp mf dd) (path_normalize (sample_env mp mf dd) ''.gitmodules'') = ''.gitmodules''"
  "fs_existsSync (sample_env mp mf dd) (path_normalize (sample_env mp mf dd) ''.gitmodules'')"
  "fs_readFileSync (sample_env mp mf dd) (path_normalize (sample_env mp mf dd) ''.gitmodules'') = Some mf"
  "core_getInput (sample_env mp mf dd) ''manifest'' = mp"
  "core_getInput (sample_env mp mf dd) ''development-deps'' = dd"
  by (simp_all add: sample_env_def)

theorem processSubmoduleTag_no_fallback_witness:
  "exec_process (sample_env ''.gitmodules'' untagged_manifest []) ''git''
      [''rev-parse'', ''--short'', ''HEAD''] ''libs/untagged''
     = Some \<lparr>exitCode = 0, stdout = ''1a2b3c4\<newline>'', stderr = []\<rparr>
   \<and> processSubmoduleTag (sample_env ''.gitmodules'' untagged_manifest []) ''libs/untagged''
     = Inl ExecFailed
   \<and> processSubmoduleTag (sample_env ''.gitmodules'' untagged_manifest []) ''libs/dep-a''
     = Inr (''v1.2.3'' @ [CHR 0x0A])
   \<and> main (sample_env ''.gitmodules'' untagged_manifest []) [0, 1] = Some (Inl ExecFailed)"
proof -
  let ?env = "sample_env ''.gitmodules'' untagged_manifest []"
  have git:
    "exec_process ?env ''git'' [''describe'', ''--tags''] (path_normalize ?env ''libs/dep-a'')
       = Some \<lparr>exitCode = 0, stdout = ''v1.2.3\<newline>'', stderr = []\<rparr>"
    "exec_process ?env ''git'' [''describe'', ''--tags''] (path_normalize ?env ''libs/untagged'')
       = Some \<lparr>exitCode = 128, stdout = [],
                stderr = ''fatal: No names found, cannot describe anything.\<newline>''\<rparr>"
    "exec_process ?env ''git'' [''rev-parse'', ''--short'', ''HEAD''] ''libs/untagged''
       = Some \<lparr>exitCode = 0, stdout = ''1a2b3c4\<newline>'', stderr = []\<rparr>"
    by (simp_all add: sample_env_def sample_git_def)
  have a: "processSubmoduleTag ?env ''libs/dep-a'' = Inr (''v1.2.3'' @ [CHR 0x0A])"
    using processSubmoduleTag_no_fallback
      [of ?env "''libs/dep-a''" "\<lparr>exitCode = 0, stdout = ''v1.2.3\<newline>'', stderr = []\<rparr>"]
      git(1)
    by simp
  have c: "processSubmoduleTag ?env ''libs/untagged'' = Inl ExecFailed"
    using processSubmoduleTag_no_fallback
      [of ?env "''libs/untagged''"
          "\<lparr>exitCode = 128, stdout = [],
            stderr = ''fatal: No names found, cannot describe anything.\<newline>''\<rparr>"]
      git(2)
    by simp
  have d: "main ?env [0, 1] = Some (Inl ExecFailed)"
    using processSubmoduleTag_no_fallback [of ?env _ _ untagged_manifest 1 "[0, 1]"] c
    by (simp add: sample_check untagged_records)
  from a c d git(3) show ?thesis by simp
qed

lemma outcomes_all_Inr:
  assumes "\<And>x. x \<in> set outcomes \<Longrightarrow> \<not> isl x"
  shows "outcomes = map Inr (map projr outcomes)"
  using assms by (induction outcomes) auto

lemma parse_order_independent:
  assumes "path_basename env (path_normalize env m) = ''.gitmodules''"
    and "fs_existsSync env (path_normalize env m)"
    and "fs_readFileSync env (path_normalize env m) = Some manifestFile"
    and "\<And>i. i < length (manifestRecords manifestFile) \<Longrightarrow> i \<in> set order"
    and "\<And>i. i < length (manifestRecords manifestFile) \<Longrightarrow> i \<in> set order'"
  shows "fst (parseSubmoduleManifest env order m) = fst (parseSubmoduleManifest env order' m)"
proof -
  let ?outcomes = "map (\<lambda>submodule. processSubmoduleTag env (path submodule))
                     (manifestRecords manifestFile)"
  show ?thesis
  proof (cases "\<exists>x \<in> set ?outcomes. isl x")
    case True
    then obtain i where i: "i < length ?outcomes" "isl (?outcomes ! i)"
      by (auto simp: in_set_conv_nth)
    then obtain e where e: "?outcomes ! i = Inl e"
      by (cases "?outcomes ! i") auto
    with i have "processSubmoduleTag env (path (manifestRecords manifestFile ! i)) = Inl e"
      by simp
    then have rej: "processSubmoduleTag env (path (manifestRecords manifestFile ! i))
                    = Inl ExecFailed"
      using processSubmoduleTag_error by blast
    have len: "i < length (manifestRecords manifestFile)" using i by simp
    show ?thesis
      using parse_rejected [OF assms(1-3) len rej assms(4) [OF len]]
            parse_rejected [OF assms(1-3) len rej assms(5) [OF len]]
      by simp
  next
    case False
    then have eq: "?outcomes = map Inr (map projr ?outcomes)"
      by (intro outcomes_all_Inr) blast
    show ?thesis
      using parse_resolved [OF assms(1-3) eq assms(4)]
            parse_resolved [OF assms(1-3) eq assms(5)]
      by simp
  qed
qed

text \<open>
  C6. The resolved versions are written back by index: when the \<open>i\<close>-th resolution gives
  \<open>tags ! i\<close>, the result is the records of the manifest in their order, the \<open>i\<close>-th
  carrying \<open>tags ! i\<close>. The result does not depend on the order in which the resolutions
  complete: any two orders in which every resolution completes give the same result.
\<close>

theorem versions_written_by_index:
  assumes "path_basename env (path_normalize env m) = ''.gitmodules''"
    and "fs_existsSync env (path_normalize env m)"
    and "fs_readFileSync env (path_normalize env m) = Some manifestFile"
    and "\<forall>i < length (manifestRecords manifestFile). i \<in> set order"
    and "\<forall>i < length (manifestRecords manifestFile). i \<in> set order'"
  shows "fst (parseSubmoduleManifest env order' m) = fst (parseSubmoduleManifest env order m)
       \<and> (map (\<lambda>submodule. processSubmoduleTag env (path submodule))
             (manifestRecords manifestFile) = map Inr tags \<longrightarrow>
          fst (parseSubmoduleManifest env order m) =
            Some (Inr (map2 (\<lambda>submodule t. submodule\<lparr>tag := t\<rparr>)
                         (manifestRecords manifestFile) tags)))"
proof (intro conjI impI)
  show "fst (parseSubmoduleManifest env order' m) = fst (parseSubmoduleManifest env order m)"
    using assms(4,5) by (intro parse_order_independent [OF assms(1-3)]) simp_all
next
  assume "map (\<lambda>submodule. processSubmoduleTag env (path submodule))
             (manifestRecords manifestFile) = map Inr tags"
  then show "fst (parseSubmoduleManifest env order m) =
            Some (Inr (map2 (\<lambda>submodule t. submodule\<lparr>tag := t\<rparr>)
                         (manifestRecords manifestFile) tags))"
    using assms(4) by (intro parse_resolved [OF assms(1-3)]) simp_all
qed

theorem versions_written_by_index_witness:
  "fst (parseSubmoduleManifest (sample_env ''.gitmodules'' sample_manifest []) [1, 0] ''.gitmodules'')
     = fst (parseSubmoduleManifest (sample_env ''.gitmodules'' sample_manifest []) [0, 1] ''.gitmodules'')
   \<and> fst (parseSubmoduleManifest (sample_env ''.gitmodules'' sample_manifest []) [0, 1] ''.gitmodules'')
     = Some (Inr [\<lparr>name = ''dep-a'', path = ''libs/dep-a'',
                    url = ''https://github.com/org/dep-a.git'', tag = ''v1.2.3\<newline>''\<rparr>,
                  \<lparr>name = ''dep'', path = ''libs/dep'',
                    url = ''https://github.com/org/dep.git'', tag = ''v0.9-2-g1a2b3c4\<newline>''\<rparr>])"
proof -
  let ?env = "sample_env ''.gitmodules'' sample_manifest []"
  have all: "\<forall>i < length (manifestRecords sample_manifest). i \<in> set [0, 1::nat]"
    "\<forall>i < length (manifestRecords sample_manifest). i \<in> set [1, 0::nat]"
    by (auto simp: sample_records)
  have tags: "map (\<lambda>submodule. processSubmoduleTag ?env (path submodule))
                (manifestRecords sample_manifest) = map Inr [''v1.2.3\<newline>'', ''v0.9-2-g1a2b3c4\<newline>'']"
    by (simp add: sample_records sample_tags)
  show ?thesis
    using versions_written_by_index
      [OF sample_check(1-3) all, of "''.gitmodules''" "[]" "[''v1.2.3\<newline>'', ''v0.9-2-g1a2b3c4\<newline>'']"] tags
    by (simp add: sample_records)
qed

subsection \<open>The test of the manifest path\<close>

text \<open>
  C7. \<^verbatim>\<open>parseSubmoduleManifest\<close> throws the manifest-not-found error if and only if the
  base name of the (normalised) path is not \<^verbatim>\<open>.gitmodules\<close> or the file does not exist;
  when it does, the file has not been read.
\<close>

theorem manifest_not_found_iff:
  "(fst (parseSubmoduleManifest env order manifest) = Some (Inl ManifestNotFound)
      \<longleftrightarrow> path_basename env (path_normalize env manifest) \<noteq> ''.gitmodules'' \<or>
           \<not> fs_existsSync env (path_normalize env manifest))
   \<and> (fst (parseSubmoduleManifest env order manifest) = Some (Inl ManifestNotFound)
      \<longrightarrow> (\<forall>p. ReadFileSync p \<notin> set (snd (parseSubmoduleManifest env order manifest))))"
proof -
  have "path_basename env (path_normalize env manifest) \<noteq> ''.gitmodules'' \<or>
           \<not> fs_existsSync env (path_normalize env manifest)"
    if "fst (parseSubmoduleManifest env order manifest) = Some (Inl ManifestNotFound)"
    using parse_error_cases [OF that] by auto
  moreover have "fst (parseSubmoduleManifest env order manifest) = Some (Inl ManifestNotFound)
      \<and> (\<forall>p. ReadFileSync p \<notin> set (snd (parseSubmoduleManifest env order manifest)))"
    if "path_basename env (path_normalize env manifest) \<noteq> ''.gitmodules'' \<or>
           \<not> fs_existsSync env (path_normalize env manifest)"
    using that by (auto simp: parseSubmoduleManifest_def Let_def)
  ultimately show ?thesis by blast
qed

theorem manifest_not_found_iff_witness:
  "parseSubmoduleManifest (sample_env ''README.md'' sample_manifest []) [0, 1] ''README.md''
     = (Some (Inl ManifestNotFound), [])
   \<and> parseSubmoduleManifest (sample_env ''libs/.gitmodules'' sample_manifest []) [0, 1] ''libs/.gitmodules''
     = (Some (Inl ManifestNotFound), [ExistsSync ''libs/.gitmodules''])
   \<and> fst (parseSubmoduleManifest (sample_env ''.gitmodules'' sample_manifest []) [0, 1] ''.gitmodules'')
     \<noteq> Some (Inl ManifestNotFound)"
proof -
  have a: "fst (parseSubmoduleManifest (sample_env ''README.md'' sample_manifest []) [0, 1] ''README.md'')
           = Some (Inl ManifestNotFound)"
    using manifest_not_found_iff
      [of "sample_env ''README.md'' sample_manifest []" "[0, 1]" "''README.md''"]
    by (simp add: sample_env_def)
  have b: "fst (parseSubmoduleManifest (sample_env ''libs/.gitmodules'' sample_manifest []) [0, 1] ''libs/.gitmodules'')
           = Some (Inl ManifestNotFound)"
    using manifest_not_found_iff
      [of "sample_env ''libs/.gitmodules'' sample_manifest []" "[0, 1]" "''libs/.gitmodules''"]
    by (simp add: sample_env_def)
  have c: "fst (parseSubmoduleManifest (sample_env ''.gitmodules'' sample_manifest []) [0, 1] ''.gitmodules'')
     \<noteq> Some (Inl ManifestNotFound)"
    using manifest_not_found_iff
      [of "sample_env ''.gitmodules'' sample_manifest []" "[0, 1]" "''.gitmodules''"]
    by (simp add: sample_check)
  have la: "snd (parseSubmoduleManifest (sample_env ''README.md'' sample_manifest []) [0, 1] ''README.md'') = []"
    by (simp add: parseSubmoduleManifest_def sample_env_def)
  have lb: "snd (parseSubmoduleManifest (sample_env ''libs/.gitmodules'' sample_manifest []) [0, 1] ''libs/.gitmodules'')
            = [ExistsSync ''libs/.gitmodules'']"
    by (simp add: parseSubmoduleManifest_def sample_env_def)
  from a la b lb c show ?thesis
    by (simp add: prod_eq_iff)
qed

subsection \<open>The index and the listing\<close>

lemma processSubmodule_error:
  "processSubmodule s = Inl e \<Longrightarrow>
     e \<in> {IncompleteSubmodule, TypeError, UnsupportedHost, InvalidCoordinate}"
  by (auto simp: processSubmodule_def new_PackageURL_def Let_def
           split: if_splits option.splits)

lemma pushPurls_error:
  "pushPurls subs purls = Inl e \<Longrightarrow>
     e \<in> {IncompleteSubmodule, TypeError, UnsupportedHost, InvalidCoordinate}"
proof (induction subs arbitrary: purls)
  case Nil
  then show ?case by simp
next
  case (Cons s subs)
  show ?case
  proof (cases "processSubmodule s")
    case (Inl e')
    with Cons.prems have "e' = e" by simp
    with Inl show ?thesis by (auto dest: processSubmodule_error)
  next
    case (Inr p)
    with Cons show ?thesis by simp
  qed
qed

lemma cachePackages_error:
  "cachePackages subs cache = Inl e \<Longrightarrow>
     e \<in> {IncompleteSubmodule, TypeError, UnsupportedHost, InvalidCoordinate}"
proof (induction subs arbitrary: cache)
  case Nil
  then show ?case by simp
next
  case (Cons s subs)
  show ?case
  proof (cases "processSubmodule s")
    case (Inl e')
    with Cons.prems have "e' = e" by simp
    with Inl show ?thesis by (auto dest: processSubmodule_error)
  next
    case (Inr p)
    with Cons show ?thesis by simp
  qed
qed

text \<open>The two loops run \<open>processSubmodule\<close> on the same records.\<close>

lemma pushPurls_cachePackages:
  assumes "pushPurls subs acc = Inr purls"
  shows "\<exists>cache'. cachePackages subs cache = Inr cache' \<and>
           (\<forall>p. p \<in> set purls \<longrightarrow>
                  p \<in> set acc \<or> cache' p = Some \<lparr>packageURL = p\<rparr>) \<and>
           (\<forall>p. cache p = Some \<lparr>packageURL = p\<rparr> \<longrightarrow> cache' p = Some \<lparr>packageURL = p\<rparr>)"
  using assms
proof (induction subs arbitrary: acc cache)
  case Nil
  then show ?case by simp
next
  case (Cons s subs)
  from Cons.prems obtain purl where purl: "processSubmodule s = Inr purl"
    and rest: "pushPurls subs (acc @ [purl]) = Inr purls"
    by (auto split: sum.splits)
  from Cons.IH [OF rest, of "cache_package cache purl"]
  obtain cache' where c: "cachePackages subs (cache_package cache purl) = Inr cache'"
    and found: "\<forall>p. p \<in> set purls \<longrightarrow>
                  p \<in> set (acc @ [purl]) \<or> cache' p = Some \<lparr>packageURL = p\<rparr>"
    and kept: "\<forall>p. cache_package cache purl p = Some \<lparr>packageURL = p\<rparr>
                  \<longrightarrow> cache' p = Some \<lparr>packageURL = p\<rparr>"
    by blast
  have new: "cache' purl = Some \<lparr>packageURL = purl\<rparr>"
    using kept by (simp add: cache_package_def)
  have old: "cache' p = Some \<lparr>packageURL = p\<rparr>" if "cache p = Some \<lparr>packageURL = p\<rparr>" for p
    using kept that by (cases "p = purl") (simp_all add: cache_package_def)
  have "cachePackages (s # subs) cache = Inr cache'"
    using purl c by simp
  moreover have "\<forall>p. p \<in> set purls \<longrightarrow> p \<in> set acc \<or> cache' p = Some \<lparr>packageURL = p\<rparr>"
    using found new by auto
  ultimately show ?case using old by blast
qed

lemma urls_in_cache:
  assumes "processSubmoduleUrls subs = Inr purls"
  shows "\<exists>cache. processSubmoduleCache subs = Inr cache \<and>
           (\<forall>p \<in> set purls. lookupPackage cache p = Some \<lparr>packageURL = p\<rparr>)"
  using pushPurls_cachePackages [of subs "[]" purls new_PackageCache] assms
  by (auto simp: processSubmoduleUrls_def processSubmoduleCache_def lookupPackage_def)

lemma addDependencies_listing:
  assumes "\<forall>p \<in> set purls. lookupPackage cache p = Some \<lparr>packageURL = p\<rparr>"
  shows "addDependencies cache dev purls manifest =
           Inr (manifest @
                map (\<lambda>p. \<lparr>dep_package = \<lparr>packageURL = p\<rparr>,
                           dep_scope = (if str_includes dev (purl_name p)
                                        then development else runtime)\<rparr>) purls)"
  using assms
  by (induction purls arbitrary: manifest)
     (simp_all add: addDirectDependency_def package_name_def Let_def)

lemma addDependencies_error:
  "addDependencies cache dev purls manifest = Inl e \<Longrightarrow> e = AssertionFailed"
  by (induction purls arbitrary: manifest) (auto simp: Let_def split: option.splits)

lemma main_listing:
  assumes "main env order = Some (Inr listing)"
  shows "\<exists>submoduleList purls.
           fst (parseSubmoduleManifest env order (core_getInput env ''manifest''))
             = Some (Inr submoduleList) \<and>
           processSubmoduleUrls submoduleList = Inr purls \<and>
           listing = map (\<lambda>p. \<lparr>dep_package = \<lparr>packageURL = p\<rparr>,
                                 dep_scope = (if str_includes (core_getInput env ''development-deps'')
                                                   (purl_name p)
                                              then development else runtime)\<rparr>) purls"
proof -
  from assms obtain submoduleList purls cache where
    p: "fst (parseSubmoduleManifest env order (core_getInput env ''manifest''))
          = Some (Inr submoduleList)"
    and u: "processSubmoduleUrls submoduleList = Inr purls"
    and c: "processSubmoduleCache submoduleList = Inr cache"
    and a: "addDependencies cache (core_getInput env ''development-deps'') purls [] = Inr listing"
    by (auto simp: main_def Let_def split: option.splits sum.splits)
  from urls_in_cache [OF u] c
  have "\<forall>p \<in> set purls. lookupPackage cache p = Some \<lparr>packageURL = p\<rparr>" by auto
  from addDependencies_listing [OF this, of "core_getInput env ''development-deps''" "[]"] a
  have "listing = map (\<lambda>p. \<lparr>dep_package = \<lparr>packageURL = p\<rparr>,
                                 dep_scope = (if str_includes (core_getInput env ''development-deps'')
                                                   (purl_name p)
                                              then development else runtime)\<rparr>) purls"
    by simp
  with p u show ?thesis by blast
qed

lemma main_no_assertion: "main env order \<noteq> Some (Inl AssertionFailed)"
proof
  assume m: "main env order = Some (Inl AssertionFailed)"
  show False
  proof (cases "fst (parseSubmoduleManifest env order (core_getInput env ''manifest''))")
    case None
    with m show False by (simp add: main_def)
  next
    case (Some r)
    show False
    proof (cases r)
      case (Inl e)
      with Some m have "e = AssertionFailed" by (simp add: main_def)
      with Some Inl parse_error_cases [of env order "core_getInput env ''manifest''" e]
      show False by auto
    next
      case (Inr submoduleList)
      show False
      proof (cases "processSubmoduleUrls submoduleList")
        case (Inl e)
        with Some Inr m have "e = AssertionFailed" by (simp add: main_def)
        with Inl pushPurls_error [of submoduleList "[]" e]
        show False by (simp add: processSubmoduleUrls_def)
      next
        case u: (Inr purls)
        from urls_in_cache [OF u] obtain cache where
          c: "processSubmoduleCache submoduleList = Inr cache"
          and f: "\<forall>p \<in> set purls. lookupPackage cache p = Some \<lparr>packageURL = p\<rparr>"
          by blast
        from Some Inr u c m addDependencies_listing [OF f]
        show False by (simp add: main_def)
      qed
    qed
  qed
qed

text \<open>
  C1. When the coordinate list is built from a list of records, the cache built from the
  same list exists and every coordinate of the list is found in it; \<^verbatim>\<open>main\<close> never ends
  with the assertion failure, whatever the environment and the order of completion.
\<close>

theorem derived_coordinates_resolve:
  "(processSubmoduleUrls submodules = Inr purls \<longrightarrow>
      (\<exists>cache. processSubmoduleCache submodules = Inr cache \<and>
         (\<forall>purl \<in> set purls. lookupPackage cache purl \<noteq> None)))
   \<and> main env order \<noteq> Some (Inl AssertionFailed)"
proof (intro conjI impI)
  assume "processSubmoduleUrls submodules = Inr purls"
  from urls_in_cache [OF this]
  show "\<exists>cache. processSubmoduleCache submodules = Inr cache \<and>
         (\<forall>purl \<in> set purls. lookupPackage cache purl \<noteq> None)"
    by fastforce
next
  show "main env order \<noteq> Some (Inl AssertionFailed)"
    by (rule main_no_assertion)
qed

lemma other_records:
  "manifestRecords other_manifest =
     [\<lparr>name = ''dep-a'', path = ''libs/dep-a'', url = ''https://github.com/org/dep-a.git'', tag = []\<rparr>,
      \<lparr>name = ''zlib'', path = ''libs/zlib'', url = ''https://github.com/madler/zlib.git'', tag = []\<rparr>]"
  by (simp add: other_manifest_def sample_defs)

lemma sample_parse:
  "fst (parseSubmoduleManifest (sample_env mp sample_manifest dd) [0, 1] ''.gitmodules'')
     = Some (Inr [\<lparr>name = ''dep-a'', path = ''libs/dep-a'',
                    url = ''https://github.com/org/dep-a.git'', tag = ''v1.2.3\<newline>''\<rparr>,
                  \<lparr>name = ''dep'', path = ''libs/dep'',
                    url = ''https://github.com/org/dep.git'', tag = ''v0.9-2-g1a2b3c4\<newline>''\<rparr>])"
  using parse_resolved [where env = "sample_env mp sample_manifest dd"
          and m = "''.gitmodules''" and manifestFile = sample_manifest
          and tags = "[''v1.2.3\<newline>'', ''v0.9-2-g1a2b3c4\<newline>'']" and order = "[0, 1]"]
  by (simp add: sample_check sample_records sample_tags less_Suc_eq)

lemma other_parse:
  "fst (parseSubmoduleManifest (sample_env mp other_manifest dd) [0, 1] ''.gitmodules'')
     = Some (Inr [\<lparr>name = ''dep-a'', path = ''libs/dep-a'',
                    url = ''https://github.com/org/dep-a.git'', tag = ''v1.2.3\<newline>''\<rparr>,
                  \<lparr>name = ''zlib'', path = ''libs/zlib'',
                    url = ''https://github.com/madler/zlib.git'', tag = ''v0.9-2-g1a2b3c4\<newline>''\<rparr>])"
  using parse_resolved [where env = "sample_env mp other_manifest dd"
          and m = "''.gitmodules''" and manifestFile = other_manifest
          and tags = "[''v1.2.3\<newline>'', ''v0.9-2-g1a2b3c4\<newline>'']" and order = "[0, 1]"]
  by (simp add: sample_check other_records sample_tags less_Suc_eq)

lemma sample_purls:
  "processSubmoduleUrls
     [\<lparr>name = ''dep-a'', path = ''libs/dep-a'',
       url = ''https://github.com/org/dep-a.git'', tag = ''v1.2.3\<newline>''\<rparr>,
      \<lparr>name = ''dep'', path = ''libs/dep'',
       url = ''https://github.com/org/dep.git'', tag = ''v0.9-2-g1a2b3c4\<newline>''\<rparr>]
   = Inr [\<lparr>purl_type = ''github'', purl_namespace = ''org'', purl_name = ''dep-a'',
           purl_version = ''v1.2.3\<newline>''\<rparr>,
          \<lparr>purl_type = ''github'', purl_namespace = ''org'', purl_name = ''dep'',
           purl_version = ''v0.9-2-g1a2b3c4\<newline>''\<rparr>]"
  by (simp add: processSubmoduleUrls_def processSubmodule_def at_def new_PackageURL_def Let_def)

lemma other_purls:
  "processSubmoduleUrls
     [\<lparr>name = ''dep-a'', path = ''libs/dep-a'',
       url = ''https://github.com/org/dep-a.git'', tag = ''v1.2.3\<newline>''\<rparr>,
      \<lparr>name = ''zlib'', path = ''libs/zlib'',
       url = ''https://github.com/madler/zlib.git'', tag = ''v0.9-2-g1a2b3c4\<newline>''\<rparr>]
   = Inr [\<lparr>purl_type = ''github'', purl_namespace = ''org'', purl_name = ''dep-a'',
           purl_version = ''v1.2.3\<newline>''\<rparr>,
          \<lparr>purl_type = ''github'', purl_namespace = ''madler'', purl_name = ''zlib'',
           purl_version = ''v0.9-2-g1a2b3c4\<newline>''\<rparr>]"
  by (simp add: processSubmoduleUrls_def processSubmodule_def at_def new_PackageURL_def Let_def)

lemma main_from_purls:
  assumes "fst (parseSubmoduleManifest env order (core_getInput env ''manifest''))
             = Some (Inr submoduleList)"
    and "processSubmoduleUrls submoduleList = Inr purls"
  shows "main env order =
           Some (Inr (map (\<lambda>p. \<lparr>dep_package = \<lparr>packageURL = p\<rparr>,
                                 dep_scope = (if str_includes (core_getInput env ''development-deps'')
                                                   (purl_name p)
                                              then development else runtime)\<rparr>) purls))"
proof -
  from urls_in_cache [OF assms(2)] obtain cache where
    c: "processSubmoduleCache submoduleList = Inr cache"
    and f: "\<forall>p \<in> set purls. lookupPackage cache p = Some \<lparr>packageURL = p\<rparr>"
    by blast
  show ?thesis
    using assms c addDependencies_listing [OF f]
    by (simp add: main_def)
qed

lemma sample_main:
  "main (sample_env ''.gitmodules'' sample_manifest ''dep-a'') [0, 1] =
     Some (Inr [\<lparr>dep_package = \<lparr>packageURL = \<lparr>purl_type = ''github'', purl_namespace = ''org'',
                    purl_name = ''dep-a'', purl_version = ''v1.2.3\<newline>''\<rparr>\<rparr>,
                  dep_scope = development\<rparr>,
                \<lparr>dep_package = \<lparr>packageURL = \<lparr>purl_type = ''github'', purl_namespace = ''org'',
                    purl_name = ''dep'', purl_version = ''v0.9-2-g1a2b3c4\<newline>''\<rparr>\<rparr>,
                  dep_scope = development\<rparr>])"
  using main_from_purls [of "sample_env ''.gitmodules'' sample_manifest ''dep-a''" "[0, 1]",
          OF _ sample_purls]
    sample_parse [of "''.gitmodules''" "''dep-a''"]
  by (simp add: sample_check)


theorem derived_coordinates_resolve_witness:
  "processSubmoduleUrls
     [\<lparr>name = ''dep-a'', path = ''libs/dep-a'',
       url = ''https://github.com/org/dep-a.git'', tag = ''v1.2.3\<newline>''\<rparr>,
      \<lparr>name = ''dep'', path = ''libs/dep'',
       url = ''https://github.com/org/dep.git'', tag = ''v0.9-2-g1a2b3c4\<newline>''\<rparr>]
   = Inr [\<lparr>purl_type = ''github'', purl_namespace = ''org'', purl_name = ''dep-a'',
           purl_version = ''v1.2.3\<newline>''\<rparr>,
          \<lparr>purl_type = ''github'', purl_namespace = ''org'', purl_name = ''dep'',
           purl_version = ''v0.9-2-g1a2b3c4\<newline>''\<rparr>]
   \<and> (case processSubmoduleCache
             [\<lparr>name = ''dep-a'', path = ''libs/dep-a'',
               url = ''https://github.com/org/dep-a.git'', tag = ''v1.2.3\<newline>''\<rparr>,
              \<lparr>name = ''dep'', path = ''libs/dep'',
               url = ''https://github.com/org/dep.git'', tag = ''v0.9-2-g1a2b3c4\<newline>''\<rparr>] of
         Inl e \<Rightarrow> False
       | Inr cache \<Rightarrow>
           lookupPackage cache \<lparr>purl_type = ''github'', purl_namespace = ''org'',
              purl_name = ''dep-a'', purl_version = ''v1.2.3\<newline>''\<rparr> \<noteq> None \<and>
           lookupPackage cache \<lparr>purl_type = ''github'', purl_namespace = ''org'',
              purl_name = ''dep'', purl_version = ''v0.9-2-g1a2b3c4\<newline>''\<rparr> \<noteq> None)
   \<and> main (sample_env ''.gitmodules'' sample_manifest ''dep-a'') [0, 1]
       \<noteq> Some (Inl AssertionFailed)"
  using derived_coordinates_resolve
      [where submodules =
          "[\<lparr>name = ''dep-a'', path = ''libs/dep-a'',
             url = ''https://github.com/org/dep-a.git'', tag = ''v1.2.3\<newline>''\<rparr>,
            \<lparr>name = ''dep'', path = ''libs/dep'',
             url = ''https://github.com/org/dep.git'', tag = ''v0.9-2-g1a2b3c4\<newline>''\<rparr>]"
        and purls =
          "[\<lparr>purl_type = ''github'', purl_namespace = ''org'', purl_name = ''dep-a'',
             purl_version = ''v1.2.3\<newline>''\<rparr>,
            \<lparr>purl_type = ''github'', purl_namespace = ''org'', purl_name = ''dep'',
             purl_version = ''v0.9-2-g1a2b3c4\<newline>''\<rparr>]"
        and env = "sample_env ''.gitmodules'' sample_manifest ''dep-a''"
        and order = "[0, 1]"]
  by (auto simp: sample_purls)



text \<open>
  C10. The test is a substring match of the coordinate's name against the whole
  \<^verbatim>\<open>development-deps\<close> input: a dependency of the listing is scoped as development exactly
  when its name occurs somewhere in the input, and as runtime exactly when it does not. It
  is not membership in the comma-separated entries: with the input \<^verbatim>\<open>dep-a\<close>, a
  dependency named \<^verbatim>\<open>dep\<close>, which is none of the entries, is scoped as development.
\<close>

theorem scope_is_substring_match:
  "(main env order = Some (Inr listing) \<and> dep \<in> set listing \<longrightarrow>
      (dep_scope dep = development \<longleftrightarrow>
         (\<exists>before after. core_getInput env ''development-deps''
                            = before @ package_name (dep_package dep) @ after)) \<and>
      (dep_scope dep = runtime \<longleftrightarrow>
         \<not> (\<exists>before after. core_getInput env ''development-deps''
                            = before @ package_name (dep_package dep) @ after)))
   \<and> (\<exists>env' order' listing' dep'.
        main env' order' = Some (Inr listing') \<and> dep' \<in> set listing' \<and>
        core_getInput env' ''development-deps'' = ''dep-a'' \<and>
        package_name (dep_package dep') = ''dep'' \<and>
        package_name (dep_package dep') \<notin>
          set (str_split CHR '','' (core_getInput env' ''development-deps'')) \<and>
        dep_scope dep' = development)"
proof (intro conjI impI)
  assume a: "main env order = Some (Inr listing) \<and> dep \<in> set listing"
  then obtain m: "main env order = Some (Inr listing)" and d: "dep \<in> set listing" by blast
  from main_listing [OF m] d
  have scope: "dep_scope dep =
                 (if str_includes (core_getInput env ''development-deps'')
                       (package_name (dep_package dep))
                  then development else runtime)"
    by (auto simp: package_name_def)
  show "dep_scope dep = development \<longleftrightarrow>
         (\<exists>before after. core_getInput env ''development-deps''
                            = before @ package_name (dep_package dep) @ after)"
    by (simp add: scope str_includes_iff)
  show "dep_scope dep = runtime \<longleftrightarrow>
         \<not> (\<exists>before after. core_getInput env ''development-deps''
                            = before @ package_name (dep_package dep) @ after)"
    by (simp add: scope str_includes_iff)
next
  let ?dep = "\<lparr>dep_package = \<lparr>packageURL = \<lparr>purl_type = ''github'', purl_namespace = ''org'',
                    purl_name = ''dep'', purl_version = ''v0.9-2-g1a2b3c4\<newline>''\<rparr>\<rparr>,
                  dep_scope = development\<rparr>"
  have "?dep \<in> set [\<lparr>dep_package = \<lparr>packageURL = \<lparr>purl_type = ''github'', purl_namespace = ''org'',
                    purl_name = ''dep-a'', purl_version = ''v1.2.3\<newline>''\<rparr>\<rparr>,
                  dep_scope = development\<rparr>, ?dep]"
    by simp
  moreover have "package_name (dep_package ?dep) = ''dep''"
    by (simp add: package_name_def)
  moreover have "''dep'' \<notin> set (str_split CHR '','' ''dep-a'')"
    by simp
  ultimately show "\<exists>env' order' listing' dep'.
        main env' order' = Some (Inr listing') \<and> dep' \<in> set listing' \<and>
        core_getInput env' ''development-deps'' = ''dep-a'' \<and>
        package_name (dep_package dep') = ''dep'' \<and>
        package_name (dep_package dep') \<notin>
          set (str_split CHR '','' (core_getInput env' ''development-deps'')) \<and>
        dep_scope dep' = development"
    using sample_main sample_check(5) [of "''.gitmodules''" sample_manifest "''dep-a''"]
    by (intro exI [of _ "sample_env ''.gitmodules'' sample_manifest ''dep-a''"]
              exI [of _ "[0, 1]"] exI [of _ ?dep]
              exI [of _ "[\<lparr>dep_package = \<lparr>packageURL = \<lparr>purl_type = ''github'',
                    purl_namespace = ''org'',
                    purl_name = ''dep-a'', purl_version = ''v1.2.3\<newline>''\<rparr>\<rparr>,
                  dep_scope = development\<rparr>, ?dep]"]) simp
qed

theorem scope_is_substring_match_witness:
  "main (sample_env ''.gitmodules'' other_manifest ''dep,cpputest'') [0, 1] =
     Some (Inr [\<lparr>dep_package = \<lparr>packageURL = \<lparr>purl_type = ''github'', purl_namespace = ''org'',
                    purl_name = ''dep-a'', purl_version = ''v1.2.3\<newline>''\<rparr>\<rparr>,
                  dep_scope = runtime\<rparr>,
                \<lparr>dep_package = \<lparr>packageURL = \<lparr>purl_type = ''github'', purl_namespace = ''madler'',
                    purl_name = ''zlib'', purl_version = ''v0.9-2-g1a2b3c4\<newline>''\<rparr>\<rparr>,
                  dep_scope = runtime\<rparr>])
   \<and> \<not> (\<exists>before after. ''dep,cpputest'' = before @ ''dep-a'' @ after)
   \<and> main (sample_env ''.gitmodules'' sample_manifest ''dep-a'') [0, 1] =
     Some (Inr [\<lparr>dep_package = \<lparr>packageURL = \<lparr>purl_type = ''github'', purl_namespace = ''org'',
                    purl_name = ''dep-a'', purl_version = ''v1.2.3\<newline>''\<rparr>\<rparr>,
                  dep_scope = development\<rparr>,
                \<lparr>dep_package = \<lparr>packageURL = \<lparr>purl_type = ''github'', purl_namespace = ''org'',
                    purl_name = ''dep'', purl_version = ''v0.9-2-g1a2b3c4\<newline>''\<rparr>\<rparr>,
                  dep_scope = development\<rparr>])
   \<and> ''dep-a'' = [] @ ''dep'' @ ''-a''
   \<and> ''dep'' \<notin> set (str_split CHR '','' ''dep-a'')"
proof -
  let ?a = "\<lparr>dep_package = \<lparr>packageURL = \<lparr>purl_type = ''github'', purl_namespace = ''org'',
                    purl_name = ''dep-a'', purl_version = ''v1.2.3\<newline>''\<rparr>\<rparr>,
                  dep_scope = runtime\<rparr>"
  let ?z = "\<lparr>dep_package = \<lparr>packageURL = \<lparr>purl_type = ''github'', purl_namespace = ''madler'',
                    purl_name = ''zlib'', purl_version = ''v0.9-2-g1a2b3c4\<newline>''\<rparr>\<rparr>,
                  dep_scope = runtime\<rparr>"
  have run: "main (sample_env ''.gitmodules'' other_manifest ''dep,cpputest'') [0, 1]
             = Some (Inr [?a, ?z])"
    using main_from_purls
        [of "sample_env ''.gitmodules'' other_manifest ''dep,cpputest''" "[0, 1]",
          OF _ other_purls]
      other_parse [of "''.gitmodules''" "''dep,cpputest''"]
    by (simp add: sample_check)
  have "\<not> (\<exists>before after. ''dep,cpputest'' = before @ ''dep-a'' @ after)"
    using scope_is_substring_match
      [of "sample_env ''.gitmodules'' other_manifest ''dep,cpputest''" "[0, 1]" "[?a, ?z]" ?a]
      run
    by (simp add: sample_check package_name_def)
  then show ?thesis
    using run sample_main by simp
qed

subsection \<open>Scanning the manifest\<close>

lemma str_split_no_sep: "c \<notin> set s \<Longrightarrow> str_split c s = [s]"
  by (induction s) auto

lemma str_split_append_sep:
  "c \<notin> set l \<Longrightarrow> str_split c (l @ c # rest) = l # str_split c rest"
  by (induction l) auto

lemma starts_with_set: "starts_with s sub \<Longrightarrow> set sub \<subseteq> set s"
  by (induction s sub rule: starts_with.induct) auto

lemma str_includes_set: "str_includes s sub \<Longrightarrow> set sub \<subseteq> set s"
proof (induction s)
  case Nil
  then show ?case by (auto dest: starts_with_set)
next
  case (Cons x xs)
  from Cons.prems consider "starts_with (x # xs) sub" | "str_includes xs sub"
    by auto
  then show ?case
  proof cases
    case 1
    then show ?thesis by (rule starts_with_set)
  next
    case 2
    with Cons.IH show ?thesis by auto
  qed
qed

lemma str_split_length: "c \<in> set s \<Longrightarrow> 1 < length (str_split c s)"
proof (induction s)
  case Nil
  then show ?case by simp
next
  case (Cons x xs)
  have "str_split c xs \<noteq> []" by simp
  then obtain y ys where "str_split c xs = y # ys" by (cases "str_split c xs") auto
  with Cons show ?case by auto
qed

text \<open>Under a guard \<^verbatim>\<open>line.includes(sub)\<close> with the separator in \<open>sub\<close>, index 1 exists.\<close>

lemma part1_guarded:
  "str_includes line sub \<Longrightarrow> c \<in> set sub \<Longrightarrow> at (str_split c line) 1 \<noteq> None"
  using str_includes_set [of line sub] str_split_length [of c line]
  by (auto simp: at_def)

lemma url_line_holds_no_path:
  assumes "CHR ''='' \<notin> set pre" and "CHR ''='' \<notin> set u"
  shows "\<not> str_includes (pre @ ''url ='' @ u) ''path =''"
proof
  assume "str_includes (pre @ ''url ='' @ u) ''path =''"
  then obtain a b where "pre @ ''url ='' @ u = a @ ''path ='' @ b"
    by (auto simp: str_includes_iff)
  then have "(a @ ''path '') @ CHR ''='' # b = (pre @ ''url '') @ CHR ''='' # u"
    by simp
  from unique_sep [OF this] assms have "a @ ''path '' = pre @ ''url ''"
    by simp
  from arg_cong [OF this, of rev] show False
    by simp
qed

lemma scanLine_header_gen:
  assumes "name s = []" and \<open>CHR ''"'' \<notin> set pre\<close> and \<open>CHR ''"'' \<notin> set n\<close>
  shows \<open>scanLine (pre @ ''submodule "'' @ n @ ''"'' @ post) s = s\<lparr>name := n\<rparr>\<close>
proof -
  define line where \<open>line = pre @ ''submodule "'' @ n @ ''"'' @ post\<close>
  have inc: \<open>str_includes line ''submodule "''\<close>
    unfolding line_def by (rule str_includes_middle)
  have e1: \<open>str_split CHR ''"'' ((pre @ ''submodule '') @ CHR ''"'' # (n @ CHR ''"'' # post))
             = (pre @ ''submodule '') # str_split CHR ''"'' (n @ CHR ''"'' # post)\<close>
    by (rule str_split_append_sep) (use assms(2) in simp)
  have e2: \<open>str_split CHR ''"'' (n @ CHR ''"'' # post) = n # str_split CHR ''"'' post\<close>
    by (rule str_split_append_sep) (fact assms(3))
  have spl: \<open>str_split CHR ''"'' line
             = (pre @ ''submodule '') # n # str_split CHR ''"'' post\<close>
    using e1 e2 by (simp add: line_def)
  have "scanLine line s = s\<lparr>name := n\<rparr>"
    using assms(1) inc by (simp add: scanLine_def spl part1_def at_def)
  then show ?thesis by (simp only: line_def)
qed

lemma split_assignment:
  assumes "CHR ''='' \<notin> set pre" and "CHR ''='' \<notin> set v" and "CHR ''='' \<notin> set key"
  shows "str_split CHR ''='' (pre @ key @ CHR ''='' # v) = [pre @ key, v]"
proof -
  have "str_split CHR ''='' ((pre @ key) @ CHR ''='' # v) = (pre @ key) # str_split CHR ''='' v"
    by (rule str_split_append_sep) (use assms(1,3) in simp)
  moreover have "str_split CHR ''='' v = [v]"
    by (rule str_split_no_sep) (fact assms(2))
  ultimately show ?thesis by simp
qed

lemma scanLine_path_gen:
  assumes "name s \<noteq> []" and "path s = []"
    and "CHR ''='' \<notin> set pre" and "CHR ''='' \<notin> set p"
  shows "scanLine (pre @ ''path ='' @ p) s = s\<lparr>path := str_trim p\<rparr>"
proof -
  define line where "line = pre @ ''path ='' @ p"
  have inc: "str_includes line ''path =''"
    unfolding line_def by (rule str_includes_middle)
  have spl: "str_split CHR ''='' line = [pre @ ''path '', p]"
    using split_assignment [OF assms(3,4), of "''path ''"] by (simp add: line_def)
  have "scanLine line s = s\<lparr>path := str_trim p\<rparr>"
    using assms(1,2) inc by (simp add: scanLine_def spl part1_def at_def)
  then show ?thesis by (simp only: line_def)
qed

lemma scanLine_url_gen:
  assumes "name s \<noteq> []" and "url s = []"
    and "CHR ''='' \<notin> set pre" and "CHR ''='' \<notin> set u"
  shows "scanLine (pre @ ''url ='' @ u) s = s\<lparr>url := str_trim u\<rparr>"
proof -
  define line where "line = pre @ ''url ='' @ u"
  have inc: "str_includes line ''url =''"
    unfolding line_def by (rule str_includes_middle)
  have no_path: "\<not> str_includes line ''path =''"
    unfolding line_def by (rule url_line_holds_no_path [OF assms(3,4)])
  have spl: "str_split CHR ''='' line = [pre @ ''url '', u]"
    using split_assignment [OF assms(3,4), of "''url ''"] by (simp add: line_def)
  have "scanLine line s = s\<lparr>url := str_trim u\<rparr>"
    using assms(1,2) inc no_path by (simp add: scanLine_def spl part1_def at_def)
  then show ?thesis by (simp only: line_def)
qed

lemma scan_no_assignment_lines:
  assumes "list_all no_assignment ls" and "name s \<noteq> []" and "path s = [] \<or> url s = []"
  shows "scanLines (ls @ rest) s out = scanLines rest s out"
  using assms(1)
proof (induction ls)
  case Nil
  then show ?case by simp
next
  case (Cons l ls)
  then have "scanLine l s = s"
    using assms(2) by (simp add: scanLine_def no_assignment_def)
  with Cons assms(3) show ?case by (auto simp: Let_def)
qed

lemma scan_no_marker_lines:
  assumes "list_all no_marker ls"
  shows "scanLines (ls @ rest) emptySubmodule out = scanLines rest emptySubmodule out"
  using assms
proof (induction ls)
  case Nil
  then show ?case by simp
next
  case (Cons l ls)
  then have "scanLine l emptySubmodule = emptySubmodule"
    by (simp add: scanLine_def no_marker_def)
  with Cons show ?case by (simp add: Let_def emptySubmodule_def)
qed

lemma scan_entry:
  assumes "well_formed_entry e"
  shows "scanLines (entry_lines e @ rest) emptySubmodule out
         = scanLines rest emptySubmodule
             (out @ [\<lparr>name = entry_name e, path = str_trim (entry_path e),
                       url = str_trim (entry_url e), tag = []\<rparr>])"
proof -
  let ?s1 = "\<lparr>name = entry_name e, path = [], url = [], tag = []\<rparr>"
  let ?sp = "\<lparr>name = entry_name e, path = str_trim (entry_path e), url = [], tag = []\<rparr>"
  let ?su = "\<lparr>name = entry_name e, path = [], url = str_trim (entry_url e), tag = []\<rparr>"
  let ?s3 = "\<lparr>name = entry_name e, path = str_trim (entry_path e),
              url = str_trim (entry_url e), tag = []\<rparr>"
  from assms have wf: "entry_name e \<noteq> []" \<open>CHR ''"'' \<notin> set (entry_name e)\<close>
    \<open>CHR ''"'' \<notin> set (header_pre e)\<close>
    "CHR ''='' \<notin> set (path_pre e)" "CHR ''='' \<notin> set (entry_path e)"
    "str_trim (entry_path e) \<noteq> []"
    "CHR ''='' \<notin> set (url_pre e)" "CHR ''='' \<notin> set (entry_url e)"
    "str_trim (entry_url e) \<noteq> []"
    and quiet: "list_all no_assignment (lines_after_header e)"
    "list_all no_assignment (lines_between e)" "list_all no_marker (lines_after e)"
    by (simp_all add: well_formed_entry_def)
  have header: "scanLine (entry_header e) emptySubmodule = ?s1"
    using scanLine_header_gen [of emptySubmodule "header_pre e" "entry_name e" "header_post e"]
      wf(2,3)
    by (simp add: emptySubmodule_def entry_header_def)
  have path1: "scanLine (entry_path_line e) ?s1 = ?sp"
    using scanLine_path_gen [of ?s1 "path_pre e" "entry_path e"] wf(1,4,5)
    by (simp add: entry_path_line_def)
  have url1: "scanLine (entry_url_line e) ?s1 = ?su"
    using scanLine_url_gen [of ?s1 "url_pre e" "entry_url e"] wf(1,7,8)
    by (simp add: entry_url_line_def)
  have path2: "scanLine (entry_path_line e) ?su = ?s3"
    using scanLine_path_gen [of ?su "path_pre e" "entry_path e"] wf(1,4,5)
    by (simp add: entry_path_line_def)
  have url2: "scanLine (entry_url_line e) ?sp = ?s3"
    using scanLine_url_gen [of ?sp "url_pre e" "entry_url e"] wf(1,7,8)
    by (simp add: entry_url_line_def)
  have step_header: "scanLines (entry_header e # ls) emptySubmodule out = scanLines ls ?s1 out"
    for ls
    by (simp add: header)
  have skip1: "scanLines (lines_after_header e @ ls) ?s1 out = scanLines ls ?s1 out" for ls
    by (rule scan_no_assignment_lines [OF quiet(1)]) (simp_all add: wf(1))
  have skip3: "scanLines (lines_after e @ ls) emptySubmodule out' = scanLines ls emptySubmodule out'"
    for ls out'
    by (rule scan_no_marker_lines [OF quiet(3)])
  show ?thesis
  proof (cases "url_first e")
    case True
    have skip2: "scanLines (lines_between e @ ls) ?su out = scanLines ls ?su out" for ls
      by (rule scan_no_assignment_lines [OF quiet(2)]) (simp_all add: wf(1))
    have first: "scanLines (entry_url_line e # ls) ?s1 out = scanLines ls ?su out" for ls
      by (simp add: url1)
    have second: "scanLines (entry_path_line e # ls) ?su out
                  = scanLines ls emptySubmodule (out @ [?s3])" for ls
      using wf(1,6,9) by (simp add: path2)
    have "entry_lines e @ rest
          = entry_header e # (lines_after_header e @ (entry_url_line e #
              (lines_between e @ (entry_path_line e # (lines_after e @ rest)))))"
      using True by (simp add: entry_lines_def)
    then show ?thesis
      by (simp only: step_header skip1 first skip2 second skip3)
  next
    case False
    have skip2: "scanLines (lines_between e @ ls) ?sp out = scanLines ls ?sp out" for ls
      by (rule scan_no_assignment_lines [OF quiet(2)]) (simp_all add: wf(1))
    have first: "scanLines (entry_path_line e # ls) ?s1 out = scanLines ls ?sp out" for ls
      by (simp add: path1)
    have second: "scanLines (entry_url_line e # ls) ?sp out
                  = scanLines ls emptySubmodule (out @ [?s3])" for ls
      using wf(1,6,9) by (simp add: url2)
    have "entry_lines e @ rest
          = entry_header e # (lines_after_header e @ (entry_path_line e #
              (lines_between e @ (entry_url_line e # (lines_after e @ rest)))))"
      using False by (simp add: entry_lines_def)
    then show ?thesis
      by (simp only: step_header skip1 first skip2 second skip3)
  qed
qed

lemma scan_entries:
  assumes "\<forall>e \<in> set entries. well_formed_entry e"
  shows "scanLines (concat (map entry_lines entries)) emptySubmodule out
         = (emptySubmodule,
            out @ map (\<lambda>e. \<lparr>name = entry_name e, path = str_trim (entry_path e),
                              url = str_trim (entry_url e), tag = []\<rparr>) entries)"
  using assms
proof (induction entries arbitrary: out)
  case Nil
  then show ?case by simp
next
  case (Cons e entries)
  then have wf: "well_formed_entry e" and wfs: "\<forall>e \<in> set entries. well_formed_entry e"
    by simp_all
  have "scanLines (concat (map entry_lines (e # entries))) emptySubmodule out
        = scanLines (entry_lines e @ concat (map entry_lines entries)) emptySubmodule out"
    by simp
  also have "\<dots> = scanLines (concat (map entry_lines entries)) emptySubmodule
                      (out @ [\<lparr>name = entry_name e, path = str_trim (entry_path e),
                                url = str_trim (entry_url e), tag = []\<rparr>])"
    by (rule scan_entry [OF wf])
  also have "\<dots> = (emptySubmodule,
                      (out @ [\<lparr>name = entry_name e, path = str_trim (entry_path e),
                                url = str_trim (entry_url e), tag = []\<rparr>]) @
                      map (\<lambda>e. \<lparr>name = entry_name e, path = str_trim (entry_path e),
                                  url = str_trim (entry_url e), tag = []\<rparr>) entries)"
    by (rule Cons.IH [OF wfs])
  finally show ?case by simp
qed

lemma records_of_entries:
  assumes "str_split CHR 0x0A manifestFile = preamble @ concat (map entry_lines entries)"
    and "list_all no_marker preamble"
    and "\<forall>e \<in> set entries. well_formed_entry e"
  shows "manifestRecords manifestFile
         = map (\<lambda>e. \<lparr>name = entry_name e, path = str_trim (entry_path e),
                       url = str_trim (entry_url e), tag = []\<rparr>) entries"
  by (simp add: manifestRecords_def assms(1) scan_no_marker_lines [OF assms(2)]
                scan_entries [OF assms(3)])

lemma zip_entry_records:
  "map2 (\<lambda>submodule t. submodule\<lparr>tag := t\<rparr>)
     (map (\<lambda>e. \<lparr>name = entry_name e, path = str_trim (entry_path e),
                  url = str_trim (entry_url e), tag = []\<rparr>) entries) tags
   = map2 (\<lambda>e t. \<lparr>name = entry_name e, path = str_trim (entry_path e),
                    url = str_trim (entry_url e), tag = t\<rparr>) entries tags"
  by (induction entries arbitrary: tags) (auto simp: zip_Cons1 split: list.splits)

text \<open>
  C3 (as stated, it fails). Two manifests of one complete section each. In the first the
  url holds a query, \<^verbatim>\<open>?ref=abc\<close>: the record's url is cut at the second \<^verbatim>\<open>'='\<close> and is
  not the assigned value. In the second a comment that holds \<^verbatim>\<open>path =\<close> stands before the
  assignment of the path: the record's path is the text of the comment.
\<close>

theorem assigned_value_counterexample:
  \<open>str_split CHR 0x0A query_manifest =
     [''[submodule "dep"]'', CHR 0x09 # ''path = libs/dep'',
      CHR 0x09 # ''url = https://github.com/org/dep.git?ref=abc'', []]
   \<and> fst (parseSubmoduleManifest (sample_env ''.gitmodules'' query_manifest []) [0]
            ''.gitmodules'')
     = Some (Inr [\<lparr>name = ''dep'', path = ''libs/dep'',
                    url = ''https://github.com/org/dep.git?ref'',
                    tag = ''v0.9-2-g1a2b3c4\<newline>''\<rparr>])
   \<and> str_split CHR 0x0A comment_manifest =
     [''[submodule "dep"]'', CHR 0x09 # ''# path = old/place'',
      CHR 0x09 # ''path = libs/dep'',
      CHR 0x09 # ''url = https://github.com/org/dep.git'', []]
   \<and> fst (parseSubmoduleManifest (sample_env ''.gitmodules'' comment_manifest []) [0]
            ''.gitmodules'')
     = Some (Inr [\<lparr>name = ''dep'', path = ''old/place'',
                    url = ''https://github.com/org/dep.git'',
                    tag = ''v0.9-2-g1a2b3c4\<newline>''\<rparr>])\<close>
  by (simp add: query_manifest_def comment_manifest_def sample_defs)

text \<open>
  C3 (amended). Take a manifest whose lines are, after lines that hold no assignment and no
  start of a header, \<open>N\<close> well-formed sections: each a header with a quoted name, then
  one \<^verbatim>\<open>path =\<close> line and one \<^verbatim>\<open>url =\<close> line in either order, whose values hold no
  \<^verbatim>\<open>'='\<close> and are not blank, among lines that hold no assignment. When the versions all
  resolve, it is parsed into exactly \<open>N\<close> records in the order of the file; each has the
  name of its section and the path and url assigned in it, trimmed of the white space
  around them, all three non-empty.
\<close>

theorem well_formed_manifest_parsed:
  assumes "path_basename env (path_normalize env manifest) = ''.gitmodules''"
    and "fs_existsSync env (path_normalize env manifest)"
    and "fs_readFileSync env (path_normalize env manifest) = Some manifestFile"
    and "str_split CHR 0x0A manifestFile = preamble @ concat (map entry_lines entries)"
    and "list_all no_marker preamble"
    and "\<forall>e \<in> set entries. well_formed_entry e"
    and "map (\<lambda>e. processSubmoduleTag env (str_trim (entry_path e))) entries = map Inr tags"
    and "\<forall>i < length entries. i \<in> set order"
  shows "\<exists>recs. fst (parseSubmoduleManifest env order manifest) = Some (Inr recs)
           \<and> length recs = length entries
           \<and> (\<forall>i < length entries.
                 name (recs ! i) = entry_name (entries ! i) \<and>
                 path (recs ! i) = str_trim (entry_path (entries ! i)) \<and>
                 url (recs ! i) = str_trim (entry_url (entries ! i)) \<and>
                 tag (recs ! i) = tags ! i \<and>
                 name (recs ! i) \<noteq> [] \<and> path (recs ! i) \<noteq> [] \<and> url (recs ! i) \<noteq> [])"
proof -
  let ?rec = "\<lambda>e. \<lparr>name = entry_name e, path = str_trim (entry_path e),
                     url = str_trim (entry_url e), tag = []\<rparr>"
  let ?recs = "map2 (\<lambda>e t. \<lparr>name = entry_name e, path = str_trim (entry_path e),
                    url = str_trim (entry_url e), tag = t\<rparr>) entries tags"
  have recs: "manifestRecords manifestFile = map ?rec entries"
    by (rule records_of_entries [OF assms(4-6)])
  have len: "length tags = length entries"
    using arg_cong [OF assms(7), of length] by simp
  have outcomes: "map (\<lambda>submodule. processSubmoduleTag env (path submodule))
                    (manifestRecords manifestFile) = map Inr tags"
    using assms(7) by (simp add: recs comp_def)
  have "fst (parseSubmoduleManifest env order manifest) =
          Some (Inr (map2 (\<lambda>submodule t. submodule\<lparr>tag := t\<rparr>)
                       (manifestRecords manifestFile) tags))"
    using assms(8) by (intro parse_resolved [OF assms(1-3) outcomes]) (simp add: recs)
  then have res: "fst (parseSubmoduleManifest env order manifest) = Some (Inr ?recs)"
    by (simp add: recs zip_entry_records)
  have wf: "entry_name (entries ! i) \<noteq> [] \<and> str_trim (entry_path (entries ! i)) \<noteq> [] \<and>
            str_trim (entry_url (entries ! i)) \<noteq> []" if "i < length entries" for i
    using assms(6) that by (auto simp: well_formed_entry_def)
  have "length ?recs = length entries" by (simp add: len)
  moreover have "\<forall>i < length entries.
                 name (?recs ! i) = entry_name (entries ! i) \<and>
                 path (?recs ! i) = str_trim (entry_path (entries ! i)) \<and>
                 url (?recs ! i) = str_trim (entry_url (entries ! i)) \<and>
                 tag (?recs ! i) = tags ! i \<and>
                 name (?recs ! i) \<noteq> [] \<and> path (?recs ! i) \<noteq> [] \<and> url (?recs ! i) \<noteq> []"
    using wf by (simp add: len)
  ultimately show ?thesis using res by blast
qed

theorem well_formed_manifest_parsed_witness:
  \<open>str_split CHR 0x0A layout_manifest =
     [''# submodules of this repository'',
      ''[submodule "dep-a"]'',
      CHR 0x09 # ''url = https://github.com/org/dep-a.git'',
      CHR 0x09 # ''branch = main'',
      CHR 0x09 # ''path = libs/dep-a  '',
      [],
      ''[submodule "zlib"]'',
      ''    path = libs/zlib'',
      ''    url = https://github.com/madler/zlib.git'',
      []]
   \<and> list_all well_formed_entry layout_entries
   \<and> (\<exists>recs. fst (parseSubmoduleManifest (sample_env ''.gitmodules'' layout_manifest [])
                     [1, 0] ''.gitmodules'') = Some (Inr recs)
         \<and> length recs = 2
         \<and> recs ! 0 = \<lparr>name = ''dep-a'', path = ''libs/dep-a'',
                         url = ''https://github.com/org/dep-a.git'',
                         tag = ''v1.2.3\<newline>''\<rparr>
         \<and> recs ! 1 = \<lparr>name = ''zlib'', path = ''libs/zlib'',
                         url = ''https://github.com/madler/zlib.git'',
                         tag = ''v0.9-2-g1a2b3c4\<newline>''\<rparr>)\<close>
proof -
  let ?env = "sample_env ''.gitmodules'' layout_manifest []"
  have lines: \<open>str_split CHR 0x0A layout_manifest =
     [''# submodules of this repository'',
      ''[submodule "dep-a"]'',
      CHR 0x09 # ''url = https://github.com/org/dep-a.git'',
      CHR 0x09 # ''branch = main'',
      CHR 0x09 # ''path = libs/dep-a  '',
      [],
      ''[submodule "zlib"]'',
      ''    path = libs/zlib'',
      ''    url = https://github.com/madler/zlib.git'',
      []]\<close>
    by (simp add: layout_manifest_def)
  have split: "str_split CHR 0x0A layout_manifest
               = [''# submodules of this repository''] @ concat (map entry_lines layout_entries)"
    by (simp add: lines layout_entries_def entry_lines_def entry_header_def
                  entry_path_line_def entry_url_line_def)
  have preamble: "list_all no_marker [''# submodules of this repository'']"
    by (simp add: no_marker_def)
  have trims: "str_trim '' libs/dep-a  '' = ''libs/dep-a''" "str_trim '' libs/zlib'' = ''libs/zlib''"
    "str_trim '' https://github.com/org/dep-a.git'' = ''https://github.com/org/dep-a.git''"
    "str_trim '' https://github.com/madler/zlib.git'' = ''https://github.com/madler/zlib.git''"
    by (simp_all add: str_trim_def is_space_def)
  have wf: "list_all well_formed_entry layout_entries"
    by (simp add: layout_entries_def well_formed_entry_def trims no_assignment_def
                  no_marker_def)
  then have wf': "\<forall>e \<in> set layout_entries. well_formed_entry e"
    by (simp add: list_all_iff)
  have tags: "map (\<lambda>e. processSubmoduleTag ?env (str_trim (entry_path e))) layout_entries
              = map Inr [''v1.2.3\<newline>'', ''v0.9-2-g1a2b3c4\<newline>'']"
    by (simp add: layout_entries_def trims sample_tags)
  have order: "\<forall>i < length layout_entries. i \<in> set [1, 0::nat]"
    by (auto simp: layout_entries_def less_Suc_eq)
  from well_formed_manifest_parsed
         [OF sample_check(1,2) sample_check(3) split preamble wf' tags order]
  obtain recs where r: "fst (parseSubmoduleManifest ?env [1, 0] ''.gitmodules'') = Some (Inr recs)"
    "length recs = length layout_entries"
    and f: "\<forall>i < length layout_entries.
                 name (recs ! i) = entry_name (layout_entries ! i) \<and>
                 path (recs ! i) = str_trim (entry_path (layout_entries ! i)) \<and>
                 url (recs ! i) = str_trim (entry_url (layout_entries ! i)) \<and>
                 tag (recs ! i) = [''v1.2.3\<newline>'', ''v0.9-2-g1a2b3c4\<newline>''] ! i \<and>
                 name (recs ! i) \<noteq> [] \<and> path (recs ! i) \<noteq> [] \<and> url (recs ! i) \<noteq> []"
    by auto
  from f have "recs ! 0 = \<lparr>name = ''dep-a'', path = ''libs/dep-a'',
                         url = ''https://github.com/org/dep-a.git'',
                         tag = ''v1.2.3\<newline>''\<rparr>"
    by (auto simp: layout_entries_def trims intro!: Submodule.equality)
  moreover from f have "recs ! 1 = \<lparr>name = ''zlib'', path = ''libs/zlib'',
                         url = ''https://github.com/madler/zlib.git'',
                         tag = ''v0.9-2-g1a2b3c4\<newline>''\<rparr>"
    by (auto simp: layout_entries_def trims intro!: Submodule.equality)
  moreover have "length recs = 2" using r(2) by (simp add: layout_entries_def)
  ultimately show ?thesis using wf r(1) lines by blast
qed

subsection \<open>Sections that lack a line\<close>













end
